theory Spec2Isabelle
  imports Main "HOL-Library.Sublist" "HOL-Library.Multiset"
begin

section \<open>Python exceptions and results\<close>

text \<open>
  The exceptions that the modelled code and its library calls can raise. \<open>Failure\<close> stands
  for any other \<open>Exception\<close> raised inside an external collaborator; \<open>KeyboardInterrupt\<close>
  derives from \<open>BaseException\<close> only, so \<open>except Exception\<close> does not catch it.
\<close>

datatype py_exc =
    ValueError
  | KeyError
  | IndexError
  | FileNotFoundError
  | FileExistsError
  | NotADirectoryError
  | IsADirectoryError
  | SameFileError
  | Failure string
  | KeyboardInterrupt

fun is_Exception :: "py_exc \<Rightarrow> bool" where
  "is_Exception KeyboardInterrupt = False"
| "is_Exception _ = True"

text \<open>A call that returns a value or raises: \<open>Inl\<close> is the raised exception.\<close>

definition bindE :: "py_exc + 'a \<Rightarrow> ('a \<Rightarrow> py_exc + 'b) \<Rightarrow> py_exc + 'b" where
  "bindE r f = (case r of Inl e \<Rightarrow> Inl e | Inr x \<Rightarrow> f x)"

section \<open>Strings and paths\<close>

text \<open>
  \<open>str.replace(old, new)\<close>: the occurrences of \<open>old\<close> are found scanning from the left, each
  match is skipped whole before the scan goes on. With an empty \<open>old\<close> Python puts \<open>new\<close>
  before every character and at the end.
\<close>

function replace_scan :: "string \<Rightarrow> string \<Rightarrow> string \<Rightarrow> string" where
  "replace_scan old new [] = []"
| "replace_scan old new (c # cs) =
     (if old \<noteq> [] \<and> prefix old (c # cs)
      then new @ replace_scan old new (drop (length old) (c # cs))
      else c # replace_scan old new cs)"
  by pat_completeness auto
termination
  by (relation "measure (\<lambda>(old, new, s). length s)") auto

definition str_replace :: "string \<Rightarrow> string \<Rightarrow> string \<Rightarrow> string" where
  "str_replace s old new =
     (if old = [] then new @ concat (map (\<lambda>c. c # new) s) else replace_scan old new s)"

text \<open>\<open>posixpath.join\<close> of two parts, \<open>posixpath.basename\<close> and \<open>posixpath.splitext\<close>.\<close>

definition os_path_join :: "string \<Rightarrow> string \<Rightarrow> string" where
  "os_path_join a b =
     (if b \<noteq> [] \<and> hd b = CHR ''/'' then b
      else if a = [] \<or> last a = CHR ''/'' then a @ b
      else a @ CHR ''/'' # b)"

definition os_path_basename :: "string \<Rightarrow> string" where
  "os_path_basename p = rev (takeWhile (\<lambda>c. c \<noteq> CHR ''/'') (rev p))"

definition os_path_splitext :: "string \<Rightarrow> string \<times> string" where
  "os_path_splitext p =
     (let base = os_path_basename p;
          ext = rev (takeWhile (\<lambda>c. c \<noteq> CHR ''.'') (rev base));
          root = take (length base - length ext - 1) base
      in if CHR ''.'' \<in> set base \<and> (\<exists>c \<in> set root. c \<noteq> CHR ''.'')
         then (take (length p - length ext - 1) p, CHR ''.'' # ext)
         else (p, []))"

section \<open>Command-line arguments\<close>

record args =
  dataset_dir :: string
  noise_dirs :: "string list"
  speakers :: "string list option"
  ignored_speakers :: "string list option"

record predict_args = args +
  model_cache_dir :: string
  normalization_cache :: string
  prediction_output_dir :: string


section \<open>Dataset Indexer\<close>

text \<open>\<open>list.remove(x)\<close>: drops the first occurrence, raises \<open>ValueError\<close> when there is none.\<close>

definition list_remove :: "'a \<Rightarrow> 'a list \<Rightarrow> py_exc + 'a list" where
  "list_remove x xs = (if x \<in> set xs then Inr (remove1 x xs) else Inl ValueError)"

text \<open>The loop \<open>for speaker_id in args.ignored_speakers: speaker_ids.remove(speaker_id)\<close>.\<close>

fun remove_ignored :: "string list \<Rightarrow> string list \<Rightarrow> py_exc + string list" where
  "remove_ignored [] speaker_ids = Inr speaker_ids"
| "remove_ignored (speaker_id # rest) speaker_ids =
     bindE (list_remove speaker_id speaker_ids) (remove_ignored rest)"

text \<open>
  \<open>list_speakers\<close>. The first parameter is \<open>AudioVisualDataset(dir).list_speakers()\<close>, an
  external collaborator. The source removes the ignored speakers from the list object
  itself (with given speakers, from \<open>args.speakers\<close>); the model returns the resulting list
  and leaves the arguments as they are.
\<close>

definition list_speakers ::
  "(string \<Rightarrow> py_exc + string list) \<Rightarrow> 'a args_scheme \<Rightarrow> py_exc + string list" where
  "list_speakers dataset_list_speakers a =
     bindE (case speakers a of
              None \<Rightarrow> dataset_list_speakers (dataset_dir a)
            | Some ids \<Rightarrow> Inr ids)
       (\<lambda>speaker_ids.
          case ignored_speakers a of
            None \<Rightarrow> Inr speaker_ids
          | Some ignored \<Rightarrow> remove_ignored ignored speaker_ids)"

text \<open>
  What \<open>AudioVisualDataset.subset\<close> returns: an object with \<open>size()\<close>, \<open>video_paths()\<close> and
  \<open>audio_paths()\<close>.
\<close>

record av_subset =
  subset_size :: nat
  video_paths :: "string list"
  audio_paths :: "string list"

text \<open>
  The two dataset classes are external collaborators: \<open>speech_subset dir speakers max_files
  shuffle\<close> is \<open>AudioVisualDataset(dir).subset(speakers, max_files, shuffle)\<close> and
  \<open>noise_subset dirs max_files shuffle\<close> is \<open>AudioDataset(dirs).subset(max_files, shuffle)\<close>.
\<close>

record dataset_env =
  speech_subset :: "string \<Rightarrow> string list \<Rightarrow> nat option \<Rightarrow> bool \<Rightarrow> py_exc + av_subset"
  noise_subset :: "string list \<Rightarrow> nat option \<Rightarrow> bool \<Rightarrow> py_exc + string list"

definition list_data ::
  "dataset_env \<Rightarrow> string \<Rightarrow> string list \<Rightarrow> string list \<Rightarrow> nat option
     \<Rightarrow> py_exc + (string list \<times> string list \<times> string list)" where
  "list_data env dir speaker_ids noises max_files =
     bindE (speech_subset env dir speaker_ids max_files True) (\<lambda>subset.
     bindE (noise_subset env noises max_files True) (\<lambda>noise_file_paths.
       let n_files = min (subset_size subset) (length noise_file_paths)
       in Inr (take n_files (video_paths subset),
               take n_files (audio_paths subset),
               take n_files noise_file_paths)))"

section \<open>Blob Aggregator\<close>

text \<open>
  A numpy array with a leading sample axis: the rows along axis 0 and the shape of one row.
\<close>

record 's ndarray =
  trailing :: "nat list"
  rows :: "'s list"

text \<open>
  \<open>np.concatenate(arrays, axis=0)\<close>: needs at least one array, and all arrays must agree
  on every dimension but the first.
\<close>

definition np_concatenate :: "'s ndarray list \<Rightarrow> py_exc + 's ndarray" where
  "np_concatenate arrays =
     (case arrays of
        [] \<Rightarrow> Inl ValueError
      | a # rest \<Rightarrow>
          if \<forall>b \<in> set rest. trailing b = trailing a
          then Inr \<lparr>trailing = trailing a, rows = concat (map rows arrays)\<rparr>
          else Inl ValueError)"

text \<open>\<open>array[permutation]\<close>: indexing with an array of non-negative indices.\<close>

definition take_rows :: "'s ndarray \<Rightarrow> nat list \<Rightarrow> py_exc + 's ndarray" where
  "take_rows a idx =
     (if \<forall>i \<in> set idx. i < length (rows a)
      then Inr (a\<lparr>rows := map (\<lambda>i. rows a ! i) idx\<rparr>)
      else Inl IndexError)"

text \<open>\<open>array[:max_samples]\<close>: \<open>None\<close> keeps all, a negative bound counts from the end.\<close>

definition slice_to :: "int option \<Rightarrow> 's ndarray \<Rightarrow> 's ndarray" where
  "slice_to max_samples a =
     (case max_samples of
        None \<Rightarrow> a
      | Some k \<Rightarrow>
          if 0 \<le> k then a\<lparr>rows := take (nat k) (rows a)\<rparr>
          else a\<lparr>rows := take (nat (int (length (rows a)) + k)) (rows a)\<rparr>)"

text \<open>What \<open>np.load\<close> returns for an archive: the arrays by name.\<close>

type_synonym 's archive = "string \<rightharpoonup> 's ndarray"

definition getitem :: "'s archive \<Rightarrow> string \<Rightarrow> py_exc + 's ndarray" where
  "getitem data name = (case data name of None \<Rightarrow> Inl KeyError | Some a \<Rightarrow> Inr a)"

text \<open>
  The loading loop of \<open>load_preprocessed_samples\<close>: the four lists \<open>all_video_samples\<close>,
  \<open>all_mixed_spectrograms\<close>, \<open>all_speech_spectrograms\<close>, \<open>all_noise_spectrograms\<close>, in the
  order of the paths. The first failure ends the loop.
\<close>

fun load_blobs ::
  "(string \<Rightarrow> py_exc + 's archive) \<Rightarrow> string list
     \<Rightarrow> py_exc + ('s ndarray list \<times> 's ndarray list \<times> 's ndarray list \<times> 's ndarray list)" where
  "load_blobs np_load [] = Inr ([], [], [], [])"
| "load_blobs np_load (preprocessed_blob_path # rest) =
     bindE (np_load preprocessed_blob_path) (\<lambda>data.
     bindE (getitem data ''video_samples'') (\<lambda>v.
     bindE (getitem data ''mixed_spectrograms'') (\<lambda>m.
     bindE (getitem data ''speech_spectrograms'') (\<lambda>s.
     bindE (getitem data ''noise_spectrograms'') (\<lambda>n.
     bindE (load_blobs np_load rest) (\<lambda>(vs, ms, ss, ns).
       Inr (v # vs, m # ms, s # ss, n # ns)))))))"

text \<open>
  \<open>load_preprocessed_samples\<close>. \<open>np_load\<close> reads an archive; \<open>permutation n\<close> is what
  \<open>np.random.permutation(n)\<close> draws in this run.
\<close>

definition load_preprocessed_samples ::
  "(string \<Rightarrow> py_exc + 's archive) \<Rightarrow> (nat \<Rightarrow> nat list) \<Rightarrow> string list \<Rightarrow> int option
     \<Rightarrow> py_exc + ('s ndarray \<times> 's ndarray \<times> 's ndarray \<times> 's ndarray)" where
  "load_preprocessed_samples np_load permutation preprocessed_blob_paths max_samples =
     bindE (load_blobs np_load preprocessed_blob_paths) (\<lambda>(vs, ms, ss, ns).
     bindE (np_concatenate vs) (\<lambda>video_samples.
     bindE (np_concatenate ms) (\<lambda>mixed_spectrograms.
     bindE (np_concatenate ss) (\<lambda>speech_spectrograms.
     bindE (np_concatenate ns) (\<lambda>noise_spectrograms.
       let p = permutation (length (rows video_samples)) in
     bindE (take_rows video_samples p) (\<lambda>video_samples.
     bindE (take_rows mixed_spectrograms p) (\<lambda>mixed_spectrograms.
     bindE (take_rows speech_spectrograms p) (\<lambda>speech_spectrograms.
     bindE (take_rows noise_spectrograms p) (\<lambda>noise_spectrograms.
       Inr (slice_to max_samples video_samples,
            slice_to max_samples mixed_spectrograms,
            slice_to max_samples speech_spectrograms,
            slice_to max_samples noise_spectrograms))))))))))"

section \<open>File system\<close>

text \<open>
  Files hold bytes. A path is resolved by its components: empty components (repeated or
  trailing slashes) are skipped, and a path is absolute when it starts with a slash. The
  components \<open>.\<close> and \<open>..\<close> and symbolic links are not resolved: they are ordinary names.
\<close>

type_synonym bytes = "nat list"

datatype node = Dir | File bytes

fun split_on :: "char \<Rightarrow> string \<Rightarrow> string list" where
  "split_on sep [] = [[]]"
| "split_on sep (c # cs) =
     (if c = sep then [] # split_on sep cs
      else (case split_on sep cs of [] \<Rightarrow> [[c]] | w # ws \<Rightarrow> (c # w) # ws))"

definition components :: "string \<Rightarrow> string list" where
  "components p = filter (\<lambda>w. w \<noteq> []) (split_on CHR ''/'' p)"

definition is_abs :: "string \<Rightarrow> bool" where
  "is_abs p = (p \<noteq> [] \<and> hd p = CHR ''/'')"

type_synonym path_key = "bool \<times> string list"

definition key :: "string \<Rightarrow> path_key" where
  "key p = (is_abs p, components p)"

definition child :: "path_key \<Rightarrow> string \<Rightarrow> path_key" where
  "child k name = (fst k, snd k @ [name])"

type_synonym fsys = "path_key \<rightharpoonup> node"

text \<open>
  What is at a path: nothing at the empty path, the root or the working directory at a
  path without components.
\<close>

definition stat :: "fsys \<Rightarrow> string \<Rightarrow> node option" where
  "stat fs p =
     (if p = [] then None else if components p = [] then Some Dir else fs (key p))"

definition parent :: "fsys \<Rightarrow> path_key \<Rightarrow> node option" where
  "parent fs k =
     (if butlast (snd k) = [] then Some Dir else fs (fst k, butlast (snd k)))"

definition os_path_exists :: "fsys \<Rightarrow> string \<Rightarrow> bool" where
  "os_path_exists fs p = (stat fs p \<noteq> None)"

text \<open>\<open>os.listdir\<close>: the names directly under a directory.\<close>

definition listdir :: "fsys \<Rightarrow> string \<Rightarrow> string set" where
  "listdir fs p = {name. fs (child (key p) name) \<noteq> None}"

text \<open>
  Operations with an effect return the outcome and the file system as they leave it, also
  when they raise.
\<close>

definition os_mkdir :: "string \<Rightarrow> fsys \<Rightarrow> (py_exc + unit) \<times> fsys" where
  "os_mkdir p fs =
     (if p = [] then (Inl FileNotFoundError, fs)
      else if stat fs p \<noteq> None then (Inl FileExistsError, fs)
      else (case parent fs (key p) of
              None \<Rightarrow> (Inl FileNotFoundError, fs)
            | Some (File b) \<Rightarrow> (Inl NotADirectoryError, fs)
            | Some Dir \<Rightarrow> (Inr (), fs(key p \<mapsto> Dir))))"

text \<open>Opening a path for writing and writing the data.\<close>

definition write_file :: "string \<Rightarrow> bytes \<Rightarrow> fsys \<Rightarrow> (py_exc + unit) \<times> fsys" where
  "write_file p data fs =
     (if p = [] then (Inl FileNotFoundError, fs)
      else if stat fs p = Some Dir then (Inl IsADirectoryError, fs)
      else (case parent fs (key p) of
              None \<Rightarrow> (Inl FileNotFoundError, fs)
            | Some (File b) \<Rightarrow> (Inl NotADirectoryError, fs)
            | Some Dir \<Rightarrow> (Inr (), fs(key p \<mapsto> File data))))"

definition read_file :: "fsys \<Rightarrow> string \<Rightarrow> py_exc + bytes" where
  "read_file fs p =
     (case stat fs p of
        None \<Rightarrow> Inl FileNotFoundError
      | Some Dir \<Rightarrow> Inl IsADirectoryError
      | Some (File data) \<Rightarrow> Inr data)"

text \<open>
  \<open>shutil.copy2\<close>: a directory as destination means the file of the same name inside it;
  copying a file onto itself is refused; the source is opened before the destination.
\<close>

definition copy2 :: "string \<Rightarrow> string \<Rightarrow> fsys \<Rightarrow> (py_exc + unit) \<times> fsys" where
  "copy2 src dst fs =
     (let dst = (if stat fs dst = Some Dir then os_path_join dst (os_path_basename src) else dst)
      in if stat fs src \<noteq> None \<and> stat fs dst \<noteq> None \<and> key src = key dst
         then (Inl SameFileError, fs)
         else (case read_file fs src of
                 Inl e \<Rightarrow> (Inl e, fs)
               | Inr data \<Rightarrow> write_file dst data fs))"

text \<open>Statements in sequence: the first that raises ends the sequence.\<close>

fun run_steps :: "('w \<Rightarrow> (py_exc + unit) \<times> 'w) list \<Rightarrow> 'w \<Rightarrow> (py_exc + unit) \<times> 'w" where
  "run_steps [] w = (Inr (), w)"
| "run_steps (step # steps) w =
     (case step w of
        (Inl e, w') \<Rightarrow> (Inl e, w')
      | (Inr u, w') \<Rightarrow> run_steps steps w')"

section \<open>Prediction Storage\<close>

text \<open>
  How signals and arrays are written is left to the external libraries: \<open>wav_bytes\<close> is
  the content \<open>AudioSignal.save_to_wav_file\<close> writes, \<open>npy_bytes\<close> the content \<open>np.save\<close> writes.
\<close>

record ('s, 'sig) codec =
  wav_bytes :: "'sig \<Rightarrow> bytes"
  npy_bytes :: "'s ndarray \<Rightarrow> bytes"

definition save_to_wav_file ::
  "('s, 'sig, 'x) codec_scheme \<Rightarrow> 'sig \<Rightarrow> string \<Rightarrow> fsys \<Rightarrow> (py_exc + unit) \<times> fsys" where
  "save_to_wav_file c signal path = write_file path (wav_bytes c signal)"

text \<open>\<open>np.save\<close> appends \<open>.npy\<close> to a file name that does not end with it.\<close>

definition np_save ::
  "('s, 'sig, 'x) codec_scheme \<Rightarrow> string \<Rightarrow> 's ndarray \<Rightarrow> fsys \<Rightarrow> (py_exc + unit) \<times> fsys" where
  "np_save c path arr =
     write_file (if suffix ''.npy'' path then path else path @ ''.npy'') (npy_bytes c arr)"

record prediction_storage =
  base_dir :: string

text \<open>
  \<open>PredictionStorage.__init__\<close>; \<open>timestamp\<close> is the formatted \<open>datetime.now()\<close>.
\<close>

definition new_storage ::
  "string \<Rightarrow> string \<Rightarrow> fsys \<Rightarrow> (py_exc + prediction_storage) \<times> fsys" where
  "new_storage timestamp storage_dir fs =
     (let b = os_path_join storage_dir timestamp
      in case os_mkdir b fs of
           (Inl e, fs') \<Rightarrow> (Inl e, fs')
         | (Inr u, fs') \<Rightarrow> (Inr \<lparr>base_dir = b\<rparr>, fs'))"

definition create_speaker_dir ::
  "prediction_storage \<Rightarrow> string \<Rightarrow> fsys \<Rightarrow> (py_exc + string) \<times> fsys" where
  "create_speaker_dir storage speaker_id fs =
     (let speaker_dir = os_path_join (base_dir storage) speaker_id
      in if \<not> os_path_exists fs speaker_dir
         then (case os_mkdir speaker_dir fs of
                 (Inl e, fs') \<Rightarrow> (Inl e, fs')
               | (Inr u, fs') \<Rightarrow> (Inr speaker_dir, fs'))
         else (Inr speaker_dir, fs))"

definition sample_dir_name :: "string \<Rightarrow> string \<Rightarrow> string" where
  "sample_dir_name video_file_path noise_file_path =
     (let speech_name = fst (os_path_splitext (os_path_basename video_file_path));
          noise_name = fst (os_path_splitext (os_path_basename noise_file_path))
      in speech_name @ ''_'' @ noise_name)"

definition save_prediction ::
  "('s, 'sig, 'x) codec_scheme \<Rightarrow> prediction_storage \<Rightarrow> string \<Rightarrow> string \<Rightarrow> string \<Rightarrow> string
     \<Rightarrow> 'sig \<Rightarrow> 'sig \<Rightarrow> 'sig \<Rightarrow> 's ndarray \<Rightarrow> 's ndarray \<Rightarrow> 's ndarray
     \<Rightarrow> fsys \<Rightarrow> (py_exc + unit) \<times> fsys" where
  "save_prediction c storage speaker_id video_file_path noise_file_path speech_file_path
       mixed_signal predicted_speech_signal nn_speech
       enhanced_speech_spectrogram nn_speech_spectrogram mixed_spectrogram fs =
     (case create_speaker_dir storage speaker_id fs of
        (Inl e, fs') \<Rightarrow> (Inl e, fs')
      | (Inr speaker_dir, fs') \<Rightarrow>
          let sample_prediction_dir =
                os_path_join speaker_dir (sample_dir_name video_file_path noise_file_path)
          in run_steps
               [os_mkdir sample_prediction_dir,
                copy2 speech_file_path (os_path_join sample_prediction_dir ''source.wav''),
                save_to_wav_file c mixed_signal (os_path_join sample_prediction_dir ''mixture.wav''),
                save_to_wav_file c predicted_speech_signal
                  (os_path_join sample_prediction_dir ''enhanced.wav''),
                save_to_wav_file c nn_speech (os_path_join sample_prediction_dir ''nn.wav''),
                np_save c (os_path_join sample_prediction_dir ''mixture.npy'') mixed_spectrogram,
                np_save c (os_path_join sample_prediction_dir ''enhanced.npy'')
                  enhanced_speech_spectrogram,
                np_save c (os_path_join sample_prediction_dir ''nn.npy'') nn_speech_spectrogram]
               fs')"

section \<open>External collaborators and the state of a run\<close>

text \<open>
  The calls a run makes to the dataset, the normalizer and the network, in call order:
  a listing of files (dataset root, speakers, noise roots, bound), the fitting of a
  normalizer on video samples, the application of a normalizer state to video samples, the
  dump and the load of a normalizer state, and video samples handed to the network.
\<close>

datatype ('s, 'n) event =
    Listed string "string list" "string list" "nat option"
  | Fit "'s ndarray"
  | Apply 'n "'s ndarray"
  | Dump 'n
  | Load 'n
  | Feed "'s ndarray"

text \<open>
  The state of a run: the files, the records written by \<open>logging.exception\<close> (message and
  exception), and the calls made so far. Console output is not modelled.
\<close>

record ('s, 'n) world =
  files :: fsys
  log :: "(string \<times> py_exc) list"
  calls :: "('s, 'n) event list"

text \<open>
  The modules \<open>data_processor\<close>, \<open>network\<close>, \<open>dataset\<close> and \<open>mediaio\<close> are not part of the
  modelled file: what they compute is a parameter. \<open>video_normalizer\<close> is the constructor
  \<open>VideoNormalizer(samples)\<close>, which fits the statistics. Modelled from the spec: section
  4.3 (\<open>apply\<close> transforms an array using the fitted statistics and is stateless after
  fit), so \<open>normalize\<close> returns the transformed array and leaves the state as it is.
  \<open>clean_speech_spectrogram\<close> is the expression that reads one clean validation recording
  and concatenates its spectrogram slices. The two permutations are the draws of
  \<open>np.random.permutation\<close> in the two calls of \<open>load_preprocessed_samples\<close> in \<open>train\<close>.
\<close>

record ('s, 'sig, 'r, 'n, 'net) collab = "('s, 'sig) codec" +
  npz_load :: "bytes \<Rightarrow> py_exc + 's archive"
  pickle_dumps :: "'n \<Rightarrow> py_exc + bytes"
  pickle_loads :: "bytes \<Rightarrow> py_exc + 'n"
  preprocess_sample ::
    "fsys \<Rightarrow> string \<Rightarrow> string \<Rightarrow> string
       \<Rightarrow> py_exc + ('s ndarray \<times> 's ndarray \<times> 's ndarray \<times> 's ndarray \<times> 'sig \<times> 'r \<times> 'r)"
  clean_speech_spectrogram :: "fsys \<Rightarrow> string \<Rightarrow> py_exc + 's ndarray"
  video_normalizer :: "'s ndarray \<Rightarrow> py_exc + 'n"
  normalize :: "'n \<Rightarrow> 's ndarray \<Rightarrow> py_exc + 's ndarray"
  reconstruct_spectrograms ::
    "'s ndarray \<Rightarrow> 's ndarray \<Rightarrow> 's ndarray \<Rightarrow> py_exc + ('s ndarray \<times> 's ndarray \<times> 's ndarray)"
  reconstruct_speech_signal :: "'sig \<Rightarrow> 's ndarray \<Rightarrow> 'r \<Rightarrow> 'r \<Rightarrow> py_exc + 'sig"
  network_load :: "string \<Rightarrow> py_exc + 'net"
  network_build :: "nat list \<Rightarrow> nat list \<Rightarrow> py_exc + 'net"
  network_train ::
    "'net \<Rightarrow> 's ndarray \<Rightarrow> 's ndarray \<Rightarrow> 's ndarray \<Rightarrow> 's ndarray \<Rightarrow> 's ndarray \<Rightarrow> 's ndarray
       \<Rightarrow> string \<Rightarrow> string \<Rightarrow> py_exc + 'net"
  network_save :: "'net \<Rightarrow> string \<Rightarrow> py_exc + unit"
  network_evaluate :: "'net \<Rightarrow> 's ndarray \<Rightarrow> 's ndarray \<Rightarrow> 's ndarray \<Rightarrow> py_exc + 'r"
  network_predict :: "'net \<Rightarrow> 's ndarray \<Rightarrow> 's ndarray \<Rightarrow> py_exc + 's ndarray"
  dataset_list_speakers :: "string \<Rightarrow> py_exc + string list"
  datasets :: dataset_env
  timestamp :: string
  train_permutation :: "nat \<Rightarrow> nat list"
  validation_permutation :: "nat \<Rightarrow> nat list"

text \<open>Sequencing of statements that return a value or raise, over the state of the run.\<close>

definition bindS ::
  "('w \<Rightarrow> (py_exc + 'a) \<times> 'w) \<Rightarrow> ('a \<Rightarrow> 'w \<Rightarrow> (py_exc + 'b) \<times> 'w) \<Rightarrow> 'w \<Rightarrow> (py_exc + 'b) \<times> 'w" where
  "bindS m f w = (case m w of (Inl e, w') \<Rightarrow> (Inl e, w') | (Inr x, w') \<Rightarrow> f x w')"

text \<open>A call without effect on the state, and a call that is recorded.\<close>

definition pure :: "py_exc + 'a \<Rightarrow> 'w \<Rightarrow> (py_exc + 'a) \<times> 'w" where
  "pure r w = (r, w)"

definition traced ::
  "('s, 'n) event list \<Rightarrow> py_exc + 'a \<Rightarrow> ('s, 'n) world \<Rightarrow> (py_exc + 'a) \<times> ('s, 'n) world" where
  "traced evs r w = (r, w\<lparr>calls := calls w @ evs\<rparr>)"

text \<open>An operation on the files, run on the state.\<close>

definition in_files ::
  "(fsys \<Rightarrow> (py_exc + 'a) \<times> fsys) \<Rightarrow> ('s, 'n) world \<Rightarrow> (py_exc + 'a) \<times> ('s, 'n) world" where
  "in_files op w = (case op (files w) of (r, fs') \<Rightarrow> (r, w\<lparr>files := fs'\<rparr>))"

section \<open>Training\<close>

text \<open>\<open>np.load\<close> of an archive file.\<close>

definition np_load ::
  "('s, 'sig, 'r, 'n, 'net) collab \<Rightarrow> fsys \<Rightarrow> string \<Rightarrow> py_exc + 's archive" where
  "np_load c fs path = bindE (read_file fs path) (npz_load c)"


text \<open>\<open>with open(path, 'rb') as fd: pickle.load(fd)\<close>.\<close>

definition load_normalizer ::
  "('s, 'sig, 'r, 'n, 'net) collab \<Rightarrow> string \<Rightarrow> ('s, 'n) world \<Rightarrow> (py_exc + 'n) \<times> ('s, 'n) world" where
  "load_normalizer c path =
     bindS (\<lambda>w. (read_file (files w) path, w)) (\<lambda>data.
     bindS (pure (pickle_loads c data)) (\<lambda>state.
     bindS (traced [Load state] (Inr ())) (\<lambda>u.
       pure (Inr state))))"


section \<open>Prediction and reconstruction loop\<close>

definition val_path :: "string \<Rightarrow> string" where
  "val_path dir = str_replace dir ''test'' ''validation''"

text \<open>The loop that computes \<open>clean_speech_spectrograms\<close>.\<close>

fun clean_spectrograms ::
  "('s, 'sig, 'r, 'n, 'net) collab \<Rightarrow> fsys \<Rightarrow> string list \<Rightarrow> py_exc + 's ndarray list" where
  "clean_spectrograms c fs [] = Inr []"
| "clean_spectrograms c fs (path # rest) =
     bindE (clean_speech_spectrogram c fs path) (\<lambda>spec.
     bindE (clean_spectrograms c fs rest) (\<lambda>specs. Inr (spec # specs)))"

text \<open>The body of the \<open>try\<close> block, for one triple.\<close>

definition predict_sample ::
  "('s, 'sig, 'r, 'n, 'net) collab \<Rightarrow> prediction_storage \<Rightarrow> 'net \<Rightarrow> 'n \<Rightarrow> string
     \<Rightarrow> string \<times> string \<times> string \<Rightarrow> ('s, 'n) world \<Rightarrow> (py_exc + unit) \<times> ('s, 'n) world" where
  "predict_sample c storage network normalizer speaker_id triple =
     (case triple of (video_file_path, speech_file_path, noise_file_path) \<Rightarrow>
     bindS (\<lambda>w. (preprocess_sample c (files w) video_file_path speech_file_path noise_file_path, w))
       (\<lambda>(video_samples, mixed_spectrograms, speech_spectrograms, noise_spectrograms,
           mixed_signal, peak, video_frame_rate).
     bindS (traced [Apply normalizer video_samples] (normalize c normalizer video_samples))
       (\<lambda>video_samples.
     bindS (traced [Feed video_samples]
              (network_evaluate c network mixed_spectrograms video_samples speech_spectrograms))
       (\<lambda>loss.
     bindS (traced [Feed video_samples]
              (network_predict c network mixed_spectrograms video_samples))
       (\<lambda>predicted_speech_spectrograms.
     bindS (pure (reconstruct_spectrograms c predicted_speech_spectrograms
                    mixed_spectrograms speech_spectrograms))
       (\<lambda>(enhanced_speech_spectrogram, mixed_spectrogram, nn_speech_spectrogram).
     bindS (pure (reconstruct_speech_signal c mixed_signal enhanced_speech_spectrogram
                    video_frame_rate peak))
       (\<lambda>enhanced_speech_signal.
     bindS (pure (reconstruct_speech_signal c mixed_signal nn_speech_spectrogram
                    video_frame_rate peak))
       (\<lambda>nn_speech_signal.
     in_files (save_prediction c storage speaker_id video_file_path noise_file_path
                 speech_file_path mixed_signal enhanced_speech_signal nn_speech_signal
                 enhanced_speech_spectrogram nn_speech_spectrogram mixed_spectrogram)))))))))"

text \<open>
  The loop over the triples of one speaker: \<open>except Exception\<close> catches what derives from
  \<open>Exception\<close>, records it with \<open>logging.exception\<close> and goes on with the next triple.
\<close>

definition failure_message :: "string \<Rightarrow> string" where
  "failure_message video_file_path = ''failed to predict '' @ video_file_path @ ''. skipping''"

fun predict_triples ::
  "('s, 'sig, 'r, 'n, 'net) collab \<Rightarrow> prediction_storage \<Rightarrow> 'net \<Rightarrow> 'n \<Rightarrow> string
     \<Rightarrow> (string \<times> string \<times> string) list \<Rightarrow> ('s, 'n) world
     \<Rightarrow> (py_exc + unit) \<times> ('s, 'n) world" where
  "predict_triples c storage network normalizer speaker_id [] w = (Inr (), w)"
| "predict_triples c storage network normalizer speaker_id (triple # rest) w =
     (case predict_sample c storage network normalizer speaker_id triple w of
        (Inr u, w') \<Rightarrow> predict_triples c storage network normalizer speaker_id rest w'
      | (Inl e, w') \<Rightarrow>
          if is_Exception e
          then predict_triples c storage network normalizer speaker_id rest
                 (w'\<lparr>log := log w' @ [(failure_message (fst triple), e)]\<rparr>)
          else (Inl e, w'))"

text \<open>The body of the loop over the speakers.\<close>

definition predict_speaker ::
  "('s, 'sig, 'r, 'n, 'net) collab \<Rightarrow> 'x predict_args_scheme \<Rightarrow> prediction_storage \<Rightarrow> 'net \<Rightarrow> 'n
     \<Rightarrow> string \<Rightarrow> ('s, 'n) world \<Rightarrow> (py_exc + unit) \<times> ('s, 'n) world" where
  "predict_speaker c a storage network normalizer speaker_id =
     bindS (traced [Listed (dataset_dir a) [speaker_id] (noise_dirs a) (Some 10)]
              (list_data (datasets c) (dataset_dir a) [speaker_id] (noise_dirs a) (Some 10)))
       (\<lambda>(video_file_paths, speech_file_paths, noise_file_paths).
     bindS (traced [Listed (val_path (dataset_dir a)) [speaker_id] (noise_dirs a) (Some 3)]
              (list_data (datasets c) (val_path (dataset_dir a)) [speaker_id] (noise_dirs a)
                 (Some 3)))
       (\<lambda>(val_video_paths, clean_speech_paths, val_noise_paths).
     bindS (\<lambda>w. (clean_spectrograms c (files w) clean_speech_paths, w))
       (\<lambda>clean_speech_spectrograms.
     predict_triples c storage network normalizer speaker_id
       (zip video_file_paths (zip speech_file_paths noise_file_paths)))))"

definition predict ::
  "('s, 'sig, 'r, 'n, 'net) collab \<Rightarrow> 'x predict_args_scheme \<Rightarrow> ('s, 'n) world
     \<Rightarrow> (py_exc + unit) \<times> ('s, 'n) world" where
  "predict c a =
     bindS (in_files (new_storage (timestamp c) (prediction_output_dir a))) (\<lambda>storage.
     bindS (pure (network_load c (model_cache_dir a))) (\<lambda>network.
     bindS (load_normalizer c (normalization_cache a)) (\<lambda>normalizer.
     bindS (pure (list_speakers (dataset_list_speakers c) a)) (\<lambda>speaker_ids.
       run_steps (map (predict_speaker c a storage network normalizer) speaker_ids)))))"

section \<open>Notions used in the statements\<close>

subsection \<open>Archives and the origin of a sample\<close>

text \<open>
  The four arrays of an archive, what it means that an archive holds them and that a path
  names such an archive, and the number of samples of an archive.
\<close>

record 's blob =
  blob_video :: "'s ndarray"
  blob_mixed :: "'s ndarray"
  blob_speech :: "'s ndarray"
  blob_noise :: "'s ndarray"

definition holds :: "'s archive \<Rightarrow> 's blob \<Rightarrow> bool" where
  "holds data b =
     (data ''video_samples'' = Some (blob_video b) \<and>
      data ''mixed_spectrograms'' = Some (blob_mixed b) \<and>
      data ''speech_spectrograms'' = Some (blob_speech b) \<and>
      data ''noise_spectrograms'' = Some (blob_noise b))"

definition stored_at :: "(string \<Rightarrow> py_exc + 's archive) \<Rightarrow> string \<Rightarrow> 's blob \<Rightarrow> bool" where
  "stored_at loader path b = (case loader path of Inl e \<Rightarrow> False | Inr data \<Rightarrow> holds data b)"

definition sample_count :: "'s blob \<Rightarrow> nat" where
  "sample_count b = length (rows (blob_video b))"

definition total_samples :: "'s blob list \<Rightarrow> nat" where
  "total_samples bs = sum_list (map sample_count bs)"

text \<open>
  The four arrays of an archive have the same number of samples; the arrays of the
  archives of a list agree on the shape of a row, kind by kind.
\<close>

definition aligned_blob :: "'s blob \<Rightarrow> bool" where
  "aligned_blob b =
     (length (rows (blob_mixed b)) = sample_count b \<and>
      length (rows (blob_speech b)) = sample_count b \<and>
      length (rows (blob_noise b)) = sample_count b)"

definition same_shapes :: "'s blob list \<Rightarrow> bool" where
  "same_shapes bs =
     (\<forall>b \<in> set bs.
        trailing (blob_video b) = trailing (blob_video (hd bs)) \<and>
        trailing (blob_mixed b) = trailing (blob_mixed (hd bs)) \<and>
        trailing (blob_speech b) = trailing (blob_speech (hd bs)) \<and>
        trailing (blob_noise b) = trailing (blob_noise (hd bs)))"

text \<open>
  The rows of one kind of all archives, in the order of the archives; the position
  \<open>(archive, row)\<close> of the row with a given index in that concatenation; the origin of the
  sample that a permutation puts at index \<open>i\<close>; and the concatenation rearranged by a
  permutation.
\<close>

definition all_rows :: "('s blob \<Rightarrow> 's ndarray) \<Rightarrow> 's blob list \<Rightarrow> 's list" where
  "all_rows kind bs = concat (map (\<lambda>b. rows (kind b)) bs)"

fun locate :: "nat list \<Rightarrow> nat \<Rightarrow> nat \<times> nat" where
  "locate [] g = (0, g)"
| "locate (n # ns) g =
     (if g < n then (0, g) else (case locate ns (g - n) of (j, r) \<Rightarrow> (Suc j, r)))"

definition origin :: "'s blob list \<Rightarrow> nat list \<Rightarrow> nat \<Rightarrow> nat \<times> nat" where
  "origin bs p i = locate (map sample_count bs) (p ! i)"

definition shuffled :: "('s blob \<Rightarrow> 's ndarray) \<Rightarrow> 's blob list \<Rightarrow> nat list \<Rightarrow> 's ndarray" where
  "shuffled kind bs p = \<lparr>trailing = trailing (kind (hd bs)), rows = map (\<lambda>i. all_rows kind bs ! i) p\<rparr>"

subsection \<open>Well-formed file systems and prediction directories\<close>

text \<open>
  In a well-formed file system there are finitely many entries and every entry lies in a
  directory that exists.
\<close>

definition wf_fs :: "fsys \<Rightarrow> bool" where
  "wf_fs fs = (finite (dom fs) \<and> (\<forall>k \<in> dom fs. snd k \<noteq> [] \<and> parent fs k = Some Dir))"

text \<open>
  The sample directory of a call of \<open>save_prediction\<close>, the seven files of a saved
  prediction, the directories that hold all seven (the complete prediction directories),
  and the file system after the seven files have been written into a directory.
\<close>

definition sample_dir :: "prediction_storage \<Rightarrow> string \<Rightarrow> string \<Rightarrow> string \<Rightarrow> string" where
  "sample_dir storage speaker_id video_file_path noise_file_path =
     os_path_join (os_path_join (base_dir storage) speaker_id)
       (sample_dir_name video_file_path noise_file_path)"

definition prediction_files :: "string list" where
  "prediction_files =
     [''source.wav'', ''mixture.wav'', ''enhanced.wav'', ''nn.wav'',
      ''mixture.npy'', ''enhanced.npy'', ''nn.npy'']"

definition prediction_dirs :: "fsys \<Rightarrow> path_key set" where
  "prediction_dirs fs =
     {k. fs k = Some Dir \<and> (\<forall>name \<in> set prediction_files. \<exists>b. fs (child k name) = Some (File b))}"

definition written :: "('s, 'sig, 'x) codec_scheme \<Rightarrow> path_key \<Rightarrow> bytes \<Rightarrow> 'sig \<Rightarrow> 'sig \<Rightarrow> 'sig
    \<Rightarrow> 's ndarray \<Rightarrow> 's ndarray \<Rightarrow> 's ndarray \<Rightarrow> fsys \<Rightarrow> fsys" where
  "written c dk src mixed_signal predicted nn enhanced_spec nn_spec mixed_spec fs =
     fs(child dk ''source.wav'' \<mapsto> File src,
        child dk ''mixture.wav'' \<mapsto> File (wav_bytes c mixed_signal),
        child dk ''enhanced.wav'' \<mapsto> File (wav_bytes c predicted),
        child dk ''nn.wav'' \<mapsto> File (wav_bytes c nn),
        child dk ''mixture.npy'' \<mapsto> File (npy_bytes c mixed_spec),
        child dk ''enhanced.npy'' \<mapsto> File (npy_bytes c enhanced_spec),
        child dk ''nn.npy'' \<mapsto> File (npy_bytes c nn_spec))"

subsection \<open>Calls of a prediction run\<close>





subsection \<open>A dataset that shuffles\<close>



subsection \<open>Concrete inputs\<close>

text \<open>
  Two archives, with samples that tell the kind and the row apart, a loader that knows them
  under two paths, and the draw that reverses the order.
\<close>

definition example_blob :: "nat list \<Rightarrow> nat blob" where
  "example_blob ids =
     \<lparr>blob_video = \<lparr>trailing = [], rows = map (\<lambda>i. 10 + i) ids\<rparr>,
      blob_mixed = \<lparr>trailing = [], rows = map (\<lambda>i. 20 + i) ids\<rparr>,
      blob_speech = \<lparr>trailing = [], rows = map (\<lambda>i. 30 + i) ids\<rparr>,
      blob_noise = \<lparr>trailing = [], rows = map (\<lambda>i. 40 + i) ids\<rparr>\<rparr>"

definition archive_of :: "'s blob \<Rightarrow> 's archive" where
  "archive_of b =
     [''video_samples'' \<mapsto> blob_video b, ''mixed_spectrograms'' \<mapsto> blob_mixed b,
      ''speech_spectrograms'' \<mapsto> blob_speech b, ''noise_spectrograms'' \<mapsto> blob_noise b]"

definition example_np_load :: "string \<Rightarrow> py_exc + nat archive" where
  "example_np_load path =
     (if path = ''a.npz'' then Inr (archive_of (example_blob [0, 1]))
      else if path = ''b.npz'' then Inr (archive_of (example_blob [2]))
      else Inl FileNotFoundError)"

definition reversing :: "nat \<Rightarrow> nat list" where
  "reversing n = rev [0..<n]"

text \<open>A dataset with eight paired samples and five noise files, and command-line arguments.\<close>

definition example_env :: dataset_env where
  "example_env =
     \<lparr>speech_subset = (\<lambda>dir ids max_files shuffle.
        Inr \<lparr>subset_size = 8,
             video_paths = map (\<lambda>i. ''v'' @ [i]) ''12345678'',
             audio_paths = map (\<lambda>i. ''s'' @ [i]) ''12345678''\<rparr>),
      noise_subset = (\<lambda>dirs max_files shuffle. Inr (map (\<lambda>i. ''n'' @ [i]) ''12345''))\<rparr>"


text \<open>
  Collaborators for a whole run: a dataset with five files per speaker that honours the
  bound, a preprocessor that fails on the third video, a normalizer whose state is the sum
  of the samples and that adds it to every sample, and a serialization that round trips.
\<close>

definition example_datasets :: dataset_env where
  "example_datasets =
     \<lparr>speech_subset = (\<lambda>dir ids max_files shuffle.
        let stems = map (\<lambda>i. dir @ ''/'' @ concat ids @ ''/v'' @ [i]) ''12345'';
            found = (case max_files of None \<Rightarrow> stems | Some m \<Rightarrow> take m stems)
        in Inr \<lparr>subset_size = length found,
                video_paths = map (\<lambda>p. p @ ''.mp4'') found,
                audio_paths = map (\<lambda>p. p @ ''.wav'') found\<rparr>),
      noise_subset = (\<lambda>dirs max_files shuffle.
        let found = map (\<lambda>i. ''noise/n'' @ [i] @ ''.wav'') ''12345''
        in Inr (case max_files of None \<Rightarrow> found | Some m \<Rightarrow> take m found))\<rparr>"

definition example_collab :: "(nat, nat list, nat, nat, unit) collab" where
  "example_collab =
     \<lparr>wav_bytes = (\<lambda>signal. signal),
      npy_bytes = rows,
      npz_load = (\<lambda>data.
        if data = [1] then Inr (archive_of (example_blob [0, 1]))
        else if data = [2] then Inr (archive_of (example_blob [2]))
        else Inl (Failure ''not an archive'')),
      pickle_dumps = (\<lambda>state. Inr [state]),
      pickle_loads = (\<lambda>data. case data of [state] \<Rightarrow> Inr state | _ \<Rightarrow> Inl (Failure ''not a pickle'')),
      preprocess_sample = (\<lambda>fs video speech noise.
        if video = ''data/test/spk1/v3.mp4'' then Inl (Failure ''corrupt video'')
        else Inr (\<lparr>trailing = [], rows = [1]\<rparr>, \<lparr>trailing = [], rows = [2]\<rparr>,
                  \<lparr>trailing = [], rows = [3]\<rparr>, \<lparr>trailing = [], rows = [4]\<rparr>, [5], 6, 7)),
      clean_speech_spectrogram = (\<lambda>fs path. Inr \<lparr>trailing = [], rows = []\<rparr>),
      video_normalizer = (\<lambda>samples. Inr (sum_list (rows samples))),
      normalize = (\<lambda>state samples. Inr (samples\<lparr>rows := map (\<lambda>x. x + state) (rows samples)\<rparr>)),
      reconstruct_spectrograms = (\<lambda>predicted mixed speech. Inr (predicted, mixed, speech)),
      reconstruct_speech_signal = (\<lambda>signal spectrogram rate peak. Inr (signal @ rows spectrogram)),
      network_load = (\<lambda>dir. Inr ()),
      network_build = (\<lambda>shape video_shape. Inr ()),
      network_train = (\<lambda>net tm tv ts vm vv vs dir tb. Inr ()),
      network_save = (\<lambda>net dir. Inr ()),
      network_evaluate = (\<lambda>net mixed video speech. Inr 0),
      network_predict = (\<lambda>net mixed video. Inr mixed),
      dataset_list_speakers = (\<lambda>dir. Inr [''spk1'']),
      datasets = example_datasets,
      timestamp = ''2018-01-01_00-00-00'',
      train_permutation = reversing,
      validation_permutation = reversing\<rparr>"

text \<open>
  A file system with the archives, the speech recordings and the output directories, and the
  runs on it.
\<close>

definition example_files :: fsys where
  "example_files = map_of
     [((False, [''out'']), Dir),
      ((False, [''out'', ''run'']), Dir),
      ((False, [''cache'']), Dir),
      ((False, [''blobs'']), Dir),
      ((False, [''blobs'', ''a.npz'']), File [1]),
      ((False, [''blobs'', ''b.npz'']), File [2]),
      ((False, [''data'']), Dir),
      ((False, [''data'', ''test'']), Dir),
      ((False, [''data'', ''test'', ''spk1'']), Dir),
      ((False, [''data'', ''test'', ''spk1'', ''v1.wav'']), File [11]),
      ((False, [''data'', ''test'', ''spk1'', ''v2.wav'']), File [12]),
      ((False, [''data'', ''test'', ''spk1'', ''v3.wav'']), File [13]),
      ((False, [''data'', ''test'', ''spk1'', ''v4.wav'']), File [14]),
      ((False, [''data'', ''test'', ''spk1'', ''v5.wav'']), File [15])]"

definition example_storage :: prediction_storage where
  "example_storage = \<lparr>base_dir = ''out/run''\<rparr>"





definition example_save :: "(py_exc + unit) \<times> fsys" where
  "example_save =
     save_prediction example_collab example_storage ''spk1''
       ''data/test/spk1/v1.mp4'' ''noise/n1.wav'' ''data/test/spk1/v1.wav''
       [1] [2] [3] \<lparr>trailing = [], rows = [4]\<rparr> \<lparr>trailing = [], rows = [5]\<rparr>
       \<lparr>trailing = [], rows = [6]\<rparr> example_files"

definition example_other_save :: "(py_exc + unit) \<times> fsys" where
  "example_other_save =
     save_prediction example_collab example_storage ''spk1''
       ''data/test/spk1/v1.mp4'' ''noise/n1.wav'' ''data/test/spk1/v2.wav''
       [1] [2] [3] \<lparr>trailing = [], rows = [4]\<rparr> \<lparr>trailing = [], rows = [5]\<rparr>
       \<lparr>trailing = [], rows = [6]\<rparr> example_files"

definition example_other_again :: "(py_exc + unit) \<times> fsys" where
  "example_other_again =
     save_prediction example_collab example_storage ''spk1''
       ''data/test/spk1/v3.mp4'' ''noise/n1.wav'' ''data/test/spk1/v2.wav''
       [1] [2] [3] \<lparr>trailing = [], rows = [4]\<rparr> \<lparr>trailing = [], rows = [5]\<rparr>
       \<lparr>trailing = [], rows = [6]\<rparr> (snd example_other_save)"





section \<open>Properties\<close>

subsection \<open>Sequencing\<close>

lemma bindE_Inr [simp]: "bindE (Inr x) f = f x" by (simp add: bindE_def)

lemma bindE_Inl [simp]: "bindE (Inl e) f = Inl e" by (simp add: bindE_def)





subsection \<open>Dataset Indexer: the speakers\<close>







subsection \<open>Dataset Indexer: the files\<close>

text \<open>
  Claim C3. When the two subsets are listed, and the speech subset has as many video paths
  and audio paths as its size (the samples are paired), \<open>list_data\<close> returns three sequences
  of the same length \<open>n\<close>, the smaller of the number of paired samples and the number of noise
  files; each is the prefix of length \<open>n\<close> of the corresponding sequence of the subsets, so
  the order is kept and the excess items are dropped without an error.
\<close>

theorem list_data_clips_to_shorter:
  assumes "speech_subset env dir speaker_ids max_files True = Inr sub"
    and "noise_subset env noises max_files True = Inr noise_paths"
    and "length (video_paths sub) = subset_size sub"
    and "length (audio_paths sub) = subset_size sub"
  shows "\<exists>v a n.
      list_data env dir speaker_ids noises max_files = Inr (v, a, n)
    \<and> length v = min (subset_size sub) (length noise_paths)
    \<and> length a = min (subset_size sub) (length noise_paths)
    \<and> length n = min (subset_size sub) (length noise_paths)
    \<and> v = take (min (subset_size sub) (length noise_paths)) (video_paths sub)
    \<and> a = take (min (subset_size sub) (length noise_paths)) (audio_paths sub)
    \<and> n = take (min (subset_size sub) (length noise_paths)) noise_paths
    \<and> prefix v (video_paths sub) \<and> prefix a (audio_paths sub) \<and> prefix n noise_paths"
  using assms by (simp add: list_data_def Let_def take_is_prefix)

text \<open>Eight paired samples and five noise files: the first five of each are returned.\<close>

theorem list_data_clips_to_shorter_witness:
  "list_data example_env ''data'' [''spk''] [''noise''] None =
     Inr ([''v1'', ''v2'', ''v3'', ''v4'', ''v5''],
          [''s1'', ''s2'', ''s3'', ''s4'', ''s5''],
          [''n1'', ''n2'', ''n3'', ''n4'', ''n5''])"
proof -
  let ?sub = "\<lparr>subset_size = 8,
             video_paths = map (\<lambda>i. ''v'' @ [i]) ''12345678'',
             audio_paths = map (\<lambda>i. ''s'' @ [i]) ''12345678''\<rparr>"
  have 1: "speech_subset example_env ''data'' [''spk''] None True = Inr ?sub"
    by (simp add: example_env_def)
  have 2: "noise_subset example_env [''noise''] None True = Inr (map (\<lambda>i. ''n'' @ [i]) ''12345'')"
    by (simp add: example_env_def)
  have 3: "length (video_paths ?sub) = subset_size ?sub" by simp
  have 4: "length (audio_paths ?sub) = subset_size ?sub" by simp
  from list_data_clips_to_shorter [OF 1 2 3 4] show ?thesis by auto
qed





subsection \<open>Blob Aggregator\<close>

lemma locate_concat:
  "g < length (concat xss) \<Longrightarrow> locate (map length xss) g = (j, r) \<Longrightarrow>
     j < length xss \<and> r < length (xss ! j) \<and> concat xss ! g = xss ! j ! r"
proof (induction xss arbitrary: g j r)
  case Nil then show ?case by simp
next
  case (Cons xs xss)
  show ?case
  proof (cases "g < length xs")
    case True
    with Cons.prems show ?thesis by (auto simp: nth_append)
  next
    case False
    obtain j' r' where l: "locate (map length xss) (g - length xs) = (j', r')" by force
    with Cons.prems False have jr: "j = Suc j'" "r = r'" by auto
    from Cons.prems False have "g - length xs < length (concat xss)" by auto
    from Cons.IH [OF this l] False jr show ?thesis by (simp add: nth_append)
  qed
qed

lemma load_blobs_ok:
  "list_all2 (stored_at loader) paths bs \<Longrightarrow>
     load_blobs loader paths =
       Inr (map blob_video bs, map blob_mixed bs, map blob_speech bs, map blob_noise bs)"
proof (induction paths bs rule: list_all2_induct)
  case Nil then show ?case by simp
next
  case (Cons p ps b bs)
  then show ?case
    by (auto simp: stored_at_def holds_def getitem_def split: sum.splits)
qed

lemma np_concatenate_ok:
  "bs \<noteq> [] \<Longrightarrow> \<forall>b \<in> set bs. trailing (kind b) = trailing (kind (hd bs)) \<Longrightarrow>
     np_concatenate (map kind bs) =
       Inr \<lparr>trailing = trailing (kind (hd bs)), rows = all_rows kind bs\<rparr>"
  by (cases bs) (auto simp: np_concatenate_def all_rows_def comp_def)

lemma length_all_rows:
  "\<forall>b \<in> set bs. length (rows (kind b)) = sample_count b \<Longrightarrow>
     length (all_rows kind bs) = sum_list (map sample_count bs)"
  by (induction bs) (auto simp: all_rows_def)

lemma take_rows_ok:
  "\<forall>i \<in> set idx. i < length xs \<Longrightarrow>
     take_rows \<lparr>trailing = t, rows = xs\<rparr> idx = Inr \<lparr>trailing = t, rows = map (\<lambda>i. xs ! i) idx\<rparr>"
  by (simp add: take_rows_def)

lemma load_preprocessed_samples_result:
  assumes paths: "list_all2 (stored_at loader) paths bs" and ne: "paths \<noteq> []"
    and al: "\<forall>b \<in> set bs. aligned_blob b" and sh: "same_shapes bs"
    and p: "\<forall>i \<in> set (permutation (sum_list (map sample_count bs))). i < sum_list (map sample_count bs)"
  shows "load_preprocessed_samples loader permutation paths max_samples =
     Inr (slice_to max_samples (shuffled blob_video bs (permutation (sum_list (map sample_count bs)))),
          slice_to max_samples (shuffled blob_mixed bs (permutation (sum_list (map sample_count bs)))),
          slice_to max_samples (shuffled blob_speech bs (permutation (sum_list (map sample_count bs)))),
          slice_to max_samples (shuffled blob_noise bs (permutation (sum_list (map sample_count bs)))))"
proof -
  let ?N = "sum_list (map sample_count bs)"
  from paths ne have bne: "bs \<noteq> []" by (auto simp: list_all2_Cons1 neq_Nil_conv)
  have lv: "length (all_rows blob_video bs) = ?N"
    by (rule length_all_rows) (simp add: sample_count_def)
  have lm: "length (all_rows blob_mixed bs) = ?N"
    using al by (intro length_all_rows) (simp add: aligned_blob_def)
  have ls: "length (all_rows blob_speech bs) = ?N"
    using al by (intro length_all_rows) (simp add: aligned_blob_def)
  have ln: "length (all_rows blob_noise bs) = ?N"
    using al by (intro length_all_rows) (simp add: aligned_blob_def)
  have cv: "np_concatenate (map blob_video bs) =
      Inr \<lparr>trailing = trailing (blob_video (hd bs)), rows = all_rows blob_video bs\<rparr>"
    using sh by (intro np_concatenate_ok [OF bne]) (simp add: same_shapes_def)
  have cm: "np_concatenate (map blob_mixed bs) =
      Inr \<lparr>trailing = trailing (blob_mixed (hd bs)), rows = all_rows blob_mixed bs\<rparr>"
    using sh by (intro np_concatenate_ok [OF bne]) (simp add: same_shapes_def)
  have cs: "np_concatenate (map blob_speech bs) =
      Inr \<lparr>trailing = trailing (blob_speech (hd bs)), rows = all_rows blob_speech bs\<rparr>"
    using sh by (intro np_concatenate_ok [OF bne]) (simp add: same_shapes_def)
  have cn: "np_concatenate (map blob_noise bs) =
      Inr \<lparr>trailing = trailing (blob_noise (hd bs)), rows = all_rows blob_noise bs\<rparr>"
    using sh by (intro np_concatenate_ok [OF bne]) (simp add: same_shapes_def)
  have tv: "take_rows \<lparr>trailing = trailing (blob_video (hd bs)), rows = all_rows blob_video bs\<rparr> (permutation ?N)
      = Inr (shuffled blob_video bs (permutation ?N))"
    unfolding shuffled_def using p by (intro take_rows_ok) (simp add: lv)
  have tm: "take_rows \<lparr>trailing = trailing (blob_mixed (hd bs)), rows = all_rows blob_mixed bs\<rparr> (permutation ?N)
      = Inr (shuffled blob_mixed bs (permutation ?N))"
    unfolding shuffled_def using p by (intro take_rows_ok) (simp add: lm)
  have ts: "take_rows \<lparr>trailing = trailing (blob_speech (hd bs)), rows = all_rows blob_speech bs\<rparr> (permutation ?N)
      = Inr (shuffled blob_speech bs (permutation ?N))"
    unfolding shuffled_def using p by (intro take_rows_ok) (simp add: ls)
  have tn: "take_rows \<lparr>trailing = trailing (blob_noise (hd bs)), rows = all_rows blob_noise bs\<rparr> (permutation ?N)
      = Inr (shuffled blob_noise bs (permutation ?N))"
    unfolding shuffled_def using p by (intro take_rows_ok) (simp add: ln)
  show ?thesis
    unfolding load_preprocessed_samples_def load_blobs_ok [OF paths]
    by (simp add: cv cm cs cn tv tm ts tn lv Let_def)
qed

lemma shuffled_origin:
  assumes "\<forall>b \<in> set bs. length (rows (kind b)) = sample_count b"
    and "g < sum_list (map sample_count bs)"
    and "locate (map sample_count bs) g = (j, r)"
  shows "j < length bs \<and> r < sample_count (bs ! j) \<and> all_rows kind bs ! g = rows (kind (bs ! j)) ! r"
proof -
  let ?xss = "map (\<lambda>b. rows (kind b)) bs"
  have m: "map length ?xss = map sample_count bs" using assms(1) by simp
  have "length (concat ?xss) = sum_list (map sample_count bs)"
    using length_all_rows [OF assms(1)] by (simp add: all_rows_def)
  with assms(2) have g: "g < length (concat ?xss)" by simp
  have l: "locate (map length ?xss) g = (j, r)" unfolding m by (rule assms(3))
  from locate_concat [OF g l] have "j < length bs" "r < length (rows (kind (bs ! j)))"
    "concat ?xss ! g = rows (kind (bs ! j)) ! r" by auto
  moreover from \<open>j < length bs\<close> assms(1) have "length (rows (kind (bs ! j))) = sample_count (bs ! j)" by simp
  ultimately show ?thesis by (simp add: all_rows_def)
qed

lemma mset_map_nth_perm:
  "mset p = mset [0..<length xs] \<Longrightarrow> mset (map (\<lambda>i. xs ! i) p) = mset xs"
proof -
  assume "mset p = mset [0..<length xs]"
  then have "mset (map (\<lambda>i. xs ! i) p) = mset (map (\<lambda>i. xs ! i) [0..<length xs])"
    by (metis mset_map)
  then show ?thesis by (simp add: map_nth)
qed

lemma perm_in_range:
  "mset p = mset [0..<n] \<Longrightarrow> \<forall>i \<in> set p. i < n"
  by (metis atLeastLessThan_iff set_upt mset_eq_setD)

lemma aligned_kinds:
  assumes "\<forall>b \<in> set bs. aligned_blob b"
  shows "\<forall>b \<in> set bs. length (rows (blob_video b)) = sample_count b"
    "\<forall>b \<in> set bs. length (rows (blob_mixed b)) = sample_count b"
    "\<forall>b \<in> set bs. length (rows (blob_speech b)) = sample_count b"
    "\<forall>b \<in> set bs. length (rows (blob_noise b)) = sample_count b"
  using assms by (simp_all add: aligned_blob_def sample_count_def)

lemma shuffled_rows_origin:
  assumes k: "\<forall>b \<in> set bs. length (rows (kind b)) = sample_count b"
    and p: "\<forall>i \<in> set p. i < total_samples bs" and i: "i < length p"
    and o: "origin bs p i = (j, r)"
  shows "j < length bs \<and> r < sample_count (bs ! j) \<and>
         rows (shuffled kind bs p) ! i = rows (kind (bs ! j)) ! r"
proof -
  from p i have "p ! i < sum_list (map sample_count bs)" by (simp add: total_samples_def)
  from shuffled_origin [OF k this] o i show ?thesis
    by (simp add: origin_def shuffled_def)
qed

text \<open>
  Claim C1. Let the (non-empty) list of paths name archives that hold the four arrays, archive
  \<open>j\<close> with \<open>sample_count (bs ! j)\<close> samples in each of its four arrays, with row shapes
  that agree across the archives, and let the draw be a permutation of the indices.
  Then \<open>load_preprocessed_samples\<close> without a bound returns four arrays with
  \<open>total_samples bs\<close> rows each (the sum of the counts); each is the concatenation in path
  order, rearranged by the one permutation drawn; and for every index \<open>i\<close> the four rows at
  \<open>i\<close> are the rows \<open>r\<close> of the four arrays of one archive \<open>j\<close>, where \<open>(j, r)\<close> is the
  origin of \<open>i\<close>. Every sample of the concatenation occurs exactly once.
\<close>

theorem load_preprocessed_samples_aligned:
  assumes "paths \<noteq> []" and "list_all2 (stored_at loader) paths bs"
    and "\<forall>b \<in> set bs. aligned_blob b" and "same_shapes bs"
    and "mset (permutation (total_samples bs)) = mset [0..<total_samples bs]"
  shows "\<exists>v m s n.
      load_preprocessed_samples loader permutation paths None = Inr (v, m, s, n)
    \<and> length (rows v) = total_samples bs \<and> length (rows m) = total_samples bs
    \<and> length (rows s) = total_samples bs \<and> length (rows n) = total_samples bs
    \<and> rows v = map (\<lambda>g. all_rows blob_video bs ! g) (permutation (total_samples bs))
    \<and> rows m = map (\<lambda>g. all_rows blob_mixed bs ! g) (permutation (total_samples bs))
    \<and> rows s = map (\<lambda>g. all_rows blob_speech bs ! g) (permutation (total_samples bs))
    \<and> rows n = map (\<lambda>g. all_rows blob_noise bs ! g) (permutation (total_samples bs))
    \<and> mset (rows v) = mset (all_rows blob_video bs)
    \<and> (\<forall>i < total_samples bs.
          case origin bs (permutation (total_samples bs)) i of (j, r) \<Rightarrow>
            j < length bs \<and> r < sample_count (bs ! j)
          \<and> rows v ! i = rows (blob_video (bs ! j)) ! r
          \<and> rows m ! i = rows (blob_mixed (bs ! j)) ! r
          \<and> rows s ! i = rows (blob_speech (bs ! j)) ! r
          \<and> rows n ! i = rows (blob_noise (bs ! j)) ! r)"
proof -
  let ?N = "total_samples bs"
  let ?p = "permutation ?N"
  note k = aligned_kinds [OF assms(3)]
  have rng: "\<forall>i \<in> set ?p. i < ?N" by (rule perm_in_range [OF assms(5)])
  have len: "length ?p = ?N" using assms(5) by (metis length_upt mset_eq_length minus_nat.diff_0)
  have res: "load_preprocessed_samples loader permutation paths None =
      Inr (shuffled blob_video bs ?p, shuffled blob_mixed bs ?p,
           shuffled blob_speech bs ?p, shuffled blob_noise bs ?p)"
    using load_preprocessed_samples_result [OF assms(2) assms(1) assms(3) assms(4), of permutation None] rng
    by (simp add: total_samples_def slice_to_def)
  have lv: "length (all_rows blob_video bs) = ?N"
    using length_all_rows [OF k(1)] by (simp add: total_samples_def)
  have ms: "mset (rows (shuffled blob_video bs ?p)) = mset (all_rows blob_video bs)"
  proof -
    have r: "rows (shuffled blob_video bs ?p) = map (\<lambda>i. all_rows blob_video bs ! i) ?p"
      by (simp add: shuffled_def)
    show ?thesis unfolding r by (rule mset_map_nth_perm) (simp only: lv assms(5))
  qed
  have al: "\<forall>i < ?N. case origin bs ?p i of (j, r) \<Rightarrow>
            j < length bs \<and> r < sample_count (bs ! j)
          \<and> rows (shuffled blob_video bs ?p) ! i = rows (blob_video (bs ! j)) ! r
          \<and> rows (shuffled blob_mixed bs ?p) ! i = rows (blob_mixed (bs ! j)) ! r
          \<and> rows (shuffled blob_speech bs ?p) ! i = rows (blob_speech (bs ! j)) ! r
          \<and> rows (shuffled blob_noise bs ?p) ! i = rows (blob_noise (bs ! j)) ! r"
  proof (intro allI impI)
    fix i assume i: "i < ?N"
    obtain j r where o: "origin bs ?p i = (j, r)" by force
    from i len have i': "i < length ?p" by simp
    from shuffled_rows_origin [OF k(1) rng i' o] shuffled_rows_origin [OF k(2) rng i' o]
      shuffled_rows_origin [OF k(3) rng i' o] shuffled_rows_origin [OF k(4) rng i' o] o
    show "case origin bs ?p i of (j, r) \<Rightarrow>
            j < length bs \<and> r < sample_count (bs ! j)
          \<and> rows (shuffled blob_video bs ?p) ! i = rows (blob_video (bs ! j)) ! r
          \<and> rows (shuffled blob_mixed bs ?p) ! i = rows (blob_mixed (bs ! j)) ! r
          \<and> rows (shuffled blob_speech bs ?p) ! i = rows (blob_speech (bs ! j)) ! r
          \<and> rows (shuffled blob_noise bs ?p) ! i = rows (blob_noise (bs ! j)) ! r"
      by simp
  qed
  show ?thesis
    apply (rule exI [of _ "shuffled blob_video bs ?p"])
    apply (rule exI [of _ "shuffled blob_mixed bs ?p"])
    apply (rule exI [of _ "shuffled blob_speech bs ?p"])
    apply (rule exI [of _ "shuffled blob_noise bs ?p"])
    apply (intro conjI)
              apply (rule res)
             apply (simp add: shuffled_def len)
            apply (simp add: shuffled_def len)
           apply (simp add: shuffled_def len)
          apply (simp add: shuffled_def len)
         apply (simp add: shuffled_def)
        apply (simp add: shuffled_def)
       apply (simp add: shuffled_def)
      apply (simp add: shuffled_def)
     apply (rule ms)
    apply (rule al)
    done
qed

lemma example_hyps:
  "[''a.npz'', ''b.npz''] \<noteq> []"
  "list_all2 (stored_at example_np_load) [''a.npz'', ''b.npz''] [example_blob [0, 1], example_blob [2]]"
  "\<forall>b \<in> set [example_blob [0, 1], example_blob [2]]. aligned_blob b"
  "same_shapes [example_blob [0, 1], example_blob [2]]"
  "mset (reversing (total_samples [example_blob [0, 1], example_blob [2]]))
     = mset [0..<total_samples [example_blob [0, 1], example_blob [2]]]"
      apply simp
     apply (simp add: stored_at_def example_np_load_def holds_def archive_of_def)
    apply (simp add: aligned_blob_def sample_count_def example_blob_def)
   apply (simp add: same_shapes_def example_blob_def)
  apply (simp add: reversing_def)
  done

lemma example_total: "total_samples [example_blob [0, 1], example_blob [2]] = 3"
  by (simp add: total_samples_def sample_count_def example_blob_def)

lemma example_perm: "mset (reversing 3) = mset [0..<3]"
  using example_hyps(5) unfolding example_total .

lemma example_full:
  "load_preprocessed_samples example_np_load reversing [''a.npz'', ''b.npz''] None =
      Inr (\<lparr>trailing = [], rows = [12, 11, 10]\<rparr>, \<lparr>trailing = [], rows = [22, 21, 20]\<rparr>,
           \<lparr>trailing = [], rows = [32, 31, 30]\<rparr>, \<lparr>trailing = [], rows = [42, 41, 40]\<rparr>)"
  by code_simp

text \<open>
  Two archives with two and one samples, and the draw that reverses the order: the result
  begins with the sample of the second archive, in all four arrays.
\<close>

theorem load_preprocessed_samples_aligned_witness:
  "[''a.npz'', ''b.npz''] \<noteq> []
   \<and> list_all2 (stored_at example_np_load) [''a.npz'', ''b.npz''] [example_blob [0, 1], example_blob [2]]
   \<and> aligned_blob (example_blob [0, 1]) \<and> aligned_blob (example_blob [2])
   \<and> same_shapes [example_blob [0, 1], example_blob [2]]
   \<and> mset (reversing 3) = mset [0..<3]
   \<and> (\<exists>v m s n.
        load_preprocessed_samples example_np_load reversing [''a.npz'', ''b.npz''] None = Inr (v, m, s, n)
      \<and> rows v = [12, 11, 10] \<and> rows m = [22, 21, 20] \<and> rows s = [32, 31, 30] \<and> rows n = [42, 41, 40]
      \<and> origin [example_blob [0, 1], example_blob [2]] (reversing 3) 0 = (1, 0)
      \<and> rows v ! 0 = rows (blob_video (example_blob [2])) ! 0
      \<and> rows n ! 0 = rows (blob_noise (example_blob [2])) ! 0)"
proof -
  have r3: "reversing 3 = [2, 1, 0]" by code_simp
  have rv: "all_rows blob_video [example_blob [0, 1], example_blob [2]] = [10, 11, 12]"
    and rm: "all_rows blob_mixed [example_blob [0, 1], example_blob [2]] = [20, 21, 22]"
    and rs: "all_rows blob_speech [example_blob [0, 1], example_blob [2]] = [30, 31, 32]"
    and rn: "all_rows blob_noise [example_blob [0, 1], example_blob [2]] = [40, 41, 42]"
    by (simp_all add: all_rows_def example_blob_def)
  have o: "origin [example_blob [0, 1], example_blob [2]] (reversing 3) 0 = (1, 0)"
    unfolding r3 by (simp add: origin_def sample_count_def example_blob_def)
  have al: "aligned_blob (example_blob [0, 1])" "aligned_blob (example_blob [2])"
    using example_hyps(3) by simp_all
  have b2: "rows (blob_video (example_blob [2])) ! 0 = 12" "rows (blob_noise (example_blob [2])) ! 0 = 42"
    by (simp_all add: example_blob_def)
  from load_preprocessed_samples_aligned [where permutation = reversing, OF example_hyps]
  obtain v m s n where res:
    "load_preprocessed_samples example_np_load reversing [''a.npz'', ''b.npz''] None = Inr (v, m, s, n)"
    "rows v = map (\<lambda>g. [10, 11, 12] ! g) [2, 1, 0]" "rows m = map (\<lambda>g. [20, 21, 22] ! g) [2, 1, 0]"
    "rows s = map (\<lambda>g. [30, 31, 32] ! g) [2, 1, 0]" "rows n = map (\<lambda>g. [40, 41, 42] ! g) [2, 1, 0]"
    unfolding example_total r3 rv rm rs rn by blast
  have ex: "\<exists>v m s n.
        load_preprocessed_samples example_np_load reversing [''a.npz'', ''b.npz''] None = Inr (v, m, s, n)
      \<and> rows v = [12, 11, 10] \<and> rows m = [22, 21, 20] \<and> rows s = [32, 31, 30] \<and> rows n = [42, 41, 40]
      \<and> origin [example_blob [0, 1], example_blob [2]] (reversing 3) 0 = (1, 0)
      \<and> rows v ! 0 = rows (blob_video (example_blob [2])) ! 0
      \<and> rows n ! 0 = rows (blob_noise (example_blob [2])) ! 0"
    apply (rule exI [of _ v], rule exI [of _ m], rule exI [of _ s], rule exI [of _ n])
    using res o b2 by simp
  from example_hyps(1,2) al example_hyps(4) example_perm ex show ?thesis by blast
qed

text \<open>
  Claim C5. With a bound \<open>k\<close> between 0 and the total sample count, each of the four
  arrays returned has exactly \<open>k\<close> rows; they are the first \<open>k\<close> rows of what the same call
  returns without a bound, that is of the shuffled arrays, hence a subset of the permuted
  set; and the four rows at every index below \<open>k\<close> still come from the same archive and row.
\<close>

theorem load_preprocessed_samples_truncated:
  assumes "paths \<noteq> []" and "list_all2 (stored_at loader) paths bs"
    and "\<forall>b \<in> set bs. aligned_blob b" and "same_shapes bs"
    and "mset (permutation (total_samples bs)) = mset [0..<total_samples bs]"
    and "0 \<le> k" and "k \<le> int (total_samples bs)"
  shows "\<exists>v m s n vk mk sk nk.
      load_preprocessed_samples loader permutation paths None = Inr (v, m, s, n)
    \<and> load_preprocessed_samples loader permutation paths (Some k) = Inr (vk, mk, sk, nk)
    \<and> int (length (rows vk)) = k \<and> int (length (rows mk)) = k
    \<and> int (length (rows sk)) = k \<and> int (length (rows nk)) = k
    \<and> rows vk = take (nat k) (rows v) \<and> rows mk = take (nat k) (rows m)
    \<and> rows sk = take (nat k) (rows s) \<and> rows nk = take (nat k) (rows n)
    \<and> set (rows vk) \<subseteq> set (rows v) \<and> set (rows mk) \<subseteq> set (rows m)
    \<and> set (rows sk) \<subseteq> set (rows s) \<and> set (rows nk) \<subseteq> set (rows n)
    \<and> (\<forall>i < nat k.
          case origin bs (permutation (total_samples bs)) i of (j, r) \<Rightarrow>
            j < length bs \<and> r < sample_count (bs ! j)
          \<and> rows vk ! i = rows (blob_video (bs ! j)) ! r
          \<and> rows mk ! i = rows (blob_mixed (bs ! j)) ! r
          \<and> rows sk ! i = rows (blob_speech (bs ! j)) ! r
          \<and> rows nk ! i = rows (blob_noise (bs ! j)) ! r)"
proof -
  let ?N = "total_samples bs"
  let ?p = "permutation ?N"
  let ?full = "\<lambda>kind. shuffled kind bs ?p"
  let ?cut = "\<lambda>kind. slice_to (Some k) (shuffled kind bs ?p)"
  note k = aligned_kinds [OF assms(3)]
  have rng: "\<forall>i \<in> set ?p. i < ?N" by (rule perm_in_range [OF assms(5)])
  have len: "length ?p = ?N" using assms(5) by (metis length_upt mset_eq_length minus_nat.diff_0)
  have full: "load_preprocessed_samples loader permutation paths None =
      Inr (?full blob_video, ?full blob_mixed, ?full blob_speech, ?full blob_noise)"
    using load_preprocessed_samples_result [OF assms(2) assms(1) assms(3) assms(4), of permutation None] rng
    by (simp add: total_samples_def slice_to_def)
  have cut: "load_preprocessed_samples loader permutation paths (Some k) =
      Inr (?cut blob_video, ?cut blob_mixed, ?cut blob_speech, ?cut blob_noise)"
    using load_preprocessed_samples_result [OF assms(2) assms(1) assms(3) assms(4), of permutation "Some k"] rng
    by (simp add: total_samples_def)
  have rows_cut: "\<And>kind. rows (?cut kind) = take (nat k) (rows (?full kind))"
    using assms(6) by (simp add: slice_to_def)
  have len_cut: "\<And>kind. int (length (rows (?cut kind))) = k"
    using assms(6,7) by (simp add: slice_to_def shuffled_def len)
  have sub: "\<And>kind. set (rows (?cut kind)) \<subseteq> set (rows (?full kind))"
    unfolding rows_cut by (rule set_take_subset)
  have al: "\<forall>i < nat k. case origin bs ?p i of (j, r) \<Rightarrow>
            j < length bs \<and> r < sample_count (bs ! j)
          \<and> rows (?cut blob_video) ! i = rows (blob_video (bs ! j)) ! r
          \<and> rows (?cut blob_mixed) ! i = rows (blob_mixed (bs ! j)) ! r
          \<and> rows (?cut blob_speech) ! i = rows (blob_speech (bs ! j)) ! r
          \<and> rows (?cut blob_noise) ! i = rows (blob_noise (bs ! j)) ! r"
  proof (intro allI impI)
    fix i assume i: "i < nat k"
    obtain j r where o: "origin bs ?p i = (j, r)" by force
    from i assms(7) len have i': "i < length ?p" by simp
    from shuffled_rows_origin [OF k(1) rng i' o] shuffled_rows_origin [OF k(2) rng i' o]
      shuffled_rows_origin [OF k(3) rng i' o] shuffled_rows_origin [OF k(4) rng i' o] o i
    show "case origin bs ?p i of (j, r) \<Rightarrow>
            j < length bs \<and> r < sample_count (bs ! j)
          \<and> rows (?cut blob_video) ! i = rows (blob_video (bs ! j)) ! r
          \<and> rows (?cut blob_mixed) ! i = rows (blob_mixed (bs ! j)) ! r
          \<and> rows (?cut blob_speech) ! i = rows (blob_speech (bs ! j)) ! r
          \<and> rows (?cut blob_noise) ! i = rows (blob_noise (bs ! j)) ! r"
      by (simp add: rows_cut)
  qed
  show ?thesis
    apply (rule exI [of _ "?full blob_video"])
    apply (rule exI [of _ "?full blob_mixed"])
    apply (rule exI [of _ "?full blob_speech"])
    apply (rule exI [of _ "?full blob_noise"])
    apply (rule exI [of _ "?cut blob_video"])
    apply (rule exI [of _ "?cut blob_mixed"])
    apply (rule exI [of _ "?cut blob_speech"])
    apply (rule exI [of _ "?cut blob_noise"])
    apply (intro conjI)
                  apply (rule full)
                 apply (rule cut)
                apply (rule len_cut)+
            apply (rule rows_cut)+
        apply (rule sub)+
    apply (rule al)
    done
qed

text \<open>
  The same two archives with the bound 2: the rows kept are the first two of the shuffled
  arrays, not the first two of the concatenation.
\<close>

theorem load_preprocessed_samples_truncated_witness:
  "[''a.npz'', ''b.npz''] \<noteq> []
   \<and> list_all2 (stored_at example_np_load) [''a.npz'', ''b.npz''] [example_blob [0, 1], example_blob [2]]
   \<and> aligned_blob (example_blob [0, 1]) \<and> aligned_blob (example_blob [2])
   \<and> same_shapes [example_blob [0, 1], example_blob [2]]
   \<and> mset (reversing 3) = mset [0..<3]
   \<and> (0::int) \<le> 2 \<and> (2::int) \<le> int (total_samples [example_blob [0, 1], example_blob [2]])
   \<and> (\<exists>vk mk sk nk.
        load_preprocessed_samples example_np_load reversing [''a.npz'', ''b.npz''] (Some 2) = Inr (vk, mk, sk, nk)
      \<and> rows vk = [12, 11] \<and> rows mk = [22, 21] \<and> rows sk = [32, 31] \<and> rows nk = [42, 41]
      \<and> rows vk \<noteq> take 2 (all_rows blob_video [example_blob [0, 1], example_blob [2]]))"
proof -
  have k: "(0::int) \<le> 2" "(2::int) \<le> int (total_samples [example_blob [0, 1], example_blob [2]])"
    unfolding example_total by simp_all
  have al: "aligned_blob (example_blob [0, 1])" "aligned_blob (example_blob [2])"
    using example_hyps(3) by simp_all
  have pre: "take 2 (all_rows blob_video [example_blob [0, 1], example_blob [2]]) = [10, 11]"
    by (simp add: all_rows_def example_blob_def)
  from load_preprocessed_samples_truncated [where permutation = reversing, OF example_hyps k]
  obtain vk mk sk nk where res:
    "load_preprocessed_samples example_np_load reversing [''a.npz'', ''b.npz''] (Some 2) = Inr (vk, mk, sk, nk)"
    "rows vk = take (nat 2) [12, 11, 10]" "rows mk = take (nat 2) [22, 21, 20]"
    "rows sk = take (nat 2) [32, 31, 30]" "rows nk = take (nat 2) [42, 41, 40]"
    unfolding example_full by auto
  have ex: "\<exists>vk mk sk nk.
        load_preprocessed_samples example_np_load reversing [''a.npz'', ''b.npz''] (Some 2) = Inr (vk, mk, sk, nk)
      \<and> rows vk = [12, 11] \<and> rows mk = [22, 21] \<and> rows sk = [32, 31] \<and> rows nk = [42, 41]
      \<and> rows vk \<noteq> take 2 (all_rows blob_video [example_blob [0, 1], example_blob [2]])"
    apply (rule exI [of _ vk], rule exI [of _ mk], rule exI [of _ sk], rule exI [of _ nk])
    using res pre by simp
  from example_hyps(1,2) al example_hyps(4) example_perm k ex show ?thesis by blast
qed

subsection \<open>The validation root\<close>

lemma replace_scan_absent:
  "\<not> sublist old s \<Longrightarrow> replace_scan old new s = s"
proof (induction s)
  case Nil then show ?case by simp
next
  case (Cons c cs)
  then show ?case by (auto simp: sublist_Cons_right)
qed

lemma replace_scan_first:
  "old \<noteq> [] \<Longrightarrow> \<not> sublist old (a @ butlast old) \<Longrightarrow>
     replace_scan old new (a @ old @ b) = a @ new @ replace_scan old new b"
proof (induction a)
  case Nil
  then show ?case by (cases old) auto
next
  case (Cons c a)
  have np: "\<not> prefix old (c # a @ old @ b)"
  proof
    assume p: "prefix old (c # a @ old @ b)"
    have len: "length old \<le> length (c # a @ butlast old)" by simp
    from p have "take (length old) (c # a @ old @ b) = old"
      by (metis append_eq_conv_conj prefix_def)
    moreover have "take (length old) (c # a @ old @ b) = take (length old) (c # a @ butlast old)"
      using Cons.prems(1) by (cases old rule: rev_cases) auto
    ultimately have "prefix old (c # a @ butlast old)"
      by (metis take_is_prefix)
    with Cons.prems(2) show False by (auto simp: sublist_Cons_right)
  qed
  from Cons.prems(2) have "\<not> sublist old (a @ butlast old)"
    by (auto simp: sublist_Cons_right)
  with Cons.IH Cons.prems(1) np show ?case by simp
qed

lemma replace_scan_match:
  "old \<noteq> [] \<Longrightarrow> prefix old s \<Longrightarrow>
     replace_scan old new s = new @ replace_scan old new (drop (length old) s)"
  by (cases s) auto

lemma replace_scan_skip:
  "\<not> prefix old (c # cs) \<Longrightarrow> replace_scan old new (c # cs) = c # replace_scan old new cs"
  by simp

lemma replace_scan_head:
  "replace_scan ''test'' ''validation'' s = x # r \<Longrightarrow> x \<noteq> CHR ''v'' \<Longrightarrow>
     \<exists>s'. s = x # s' \<and> r = replace_scan ''test'' ''validation'' s'"
  by (cases s) (auto split: if_splits)

lemma no_test_left: "\<not> sublist ''test'' (replace_scan ''test'' ''validation'' s)"
proof (induction "''test''" "''validation''" s rule: replace_scan.induct)
  case 1
  then show ?case by simp
next
  case (2 c cs)
  show ?case
  proof (cases "prefix ''test'' (c # cs)")
    case True
    define rest where "rest = replace_scan ''test'' ''validation'' (drop (length ''test'') (c # cs))"
    from True have "\<not> sublist ''test'' rest"
      unfolding rest_def by (intro 2(1)) auto
    then have "\<not> sublist ''test'' (''validation'' @ rest)"
      by (simp add: sublist_Cons_right)
    moreover have "replace_scan ''test'' ''validation'' (c # cs) = ''validation'' @ rest"
      unfolding rest_def by (rule replace_scan_match [OF _ True]) simp
    ultimately show ?thesis by simp
  next
    case False
    with 2 have ih: "\<not> sublist ''test'' (replace_scan ''test'' ''validation'' cs)" by simp
    have "\<not> prefix ''test'' (c # replace_scan ''test'' ''validation'' cs)"
    proof
      assume p: "prefix ''test'' (c # replace_scan ''test'' ''validation'' cs)"
      then obtain r1 where c: "c = CHR ''t''" and 1: "replace_scan ''test'' ''validation'' cs = CHR ''e'' # r1"
        and p1: "prefix ''st'' r1"
        by (cases "replace_scan ''test'' ''validation'' cs") auto
      from replace_scan_head [OF 1] obtain s1 where s1: "cs = CHR ''e'' # s1" "r1 = replace_scan ''test'' ''validation'' s1"
        by auto
      from p1 obtain r2 where 2: "replace_scan ''test'' ''validation'' s1 = CHR ''s'' # r2" and p2: "prefix ''t'' r2"
        unfolding s1(2) by (cases "replace_scan ''test'' ''validation'' s1") auto
      from replace_scan_head [OF 2] obtain s2 where s2: "s1 = CHR ''s'' # s2" "r2 = replace_scan ''test'' ''validation'' s2"
        by auto
      from p2 obtain r3 where 3: "replace_scan ''test'' ''validation'' s2 = CHR ''t'' # r3"
        unfolding s2(2) by (cases "replace_scan ''test'' ''validation'' s2") auto
      from replace_scan_head [OF 3] obtain s3 where s3: "s2 = CHR ''t'' # s3" by auto
      from c s1 s2 s3 False show False by simp
    qed
    with ih show ?thesis
      unfolding replace_scan_skip [OF False] sublist_Cons_right by blast
  qed
qed

text \<open>
  Claim C10. A dataset root without the substring \<open>test\<close> is left as it is, so the clean
  validation speech is then listed from the same root as the triples. Where \<open>test\<close> occurs,
  the leftmost occurrence is replaced by \<open>validation\<close> and the replacement goes on behind
  it, wherever in the string the occurrence stands; no occurrence of \<open>test\<close> is left in the
  result.
\<close>

theorem val_path_replaces_every_test:
  "(\<not> sublist ''test'' d \<longrightarrow> val_path d = d)
   \<and> (\<not> sublist ''test'' (a @ ''tes'') \<longrightarrow>
        val_path (a @ ''test'' @ b) = a @ ''validation'' @ val_path b)
   \<and> \<not> sublist ''test'' (val_path d)"
proof -
  have 1: "\<not> sublist ''test'' d \<longrightarrow> val_path d = d"
    by (simp add: val_path_def str_replace_def replace_scan_absent)
  have 2: "\<not> sublist ''test'' (a @ ''tes'') \<longrightarrow>
        val_path (a @ ''test'' @ b) = a @ ''validation'' @ val_path b"
    using replace_scan_first [of "''test''" a "''validation''" b]
    by (simp add: val_path_def str_replace_def)
  have 3: "\<not> sublist ''test'' (val_path d)"
    using no_test_left [of d] by (simp add: val_path_def str_replace_def)
  from 1 2 3 show ?thesis by blast
qed

text \<open>
  A root without \<open>test\<close> is unchanged; \<open>test\<close> inside the segment \<open>latest\<close> is replaced as
  well as the whole segment \<open>test\<close>.
\<close>

theorem val_path_replaces_every_test_witness:
  "\<not> sublist ''test'' ''/data/train''
   \<and> val_path ''/data/train'' = ''/data/train''
   \<and> \<not> sublist ''test'' (''/data/la'' @ ''tes'')
   \<and> val_path (''/data/la'' @ ''test'' @ ''/x'') = ''/data/la'' @ ''validation'' @ val_path ''/x''
   \<and> val_path ''/data/latest/x'' = ''/data/lavalidation/x''
   \<and> val_path ''/corpus/test/spk'' = ''/corpus/validation/spk''"
proof -
  have h1: "\<not> sublist ''test'' ''/data/train''" by code_simp
  have h2: "\<not> sublist ''test'' (''/data/la'' @ ''tes'')" by code_simp
  note t = val_path_replaces_every_test [of "''/data/train''" "''/data/la''" "''/x''"]
  have a: "val_path ''/data/train'' = ''/data/train''"
    by (rule t [THEN conjunct1, THEN mp, OF h1])
  have b: "val_path (''/data/la'' @ ''test'' @ ''/x'')
      = ''/data/la'' @ ''validation'' @ val_path ''/x''"
    by (rule t [THEN conjunct2, THEN conjunct1, THEN mp, OF h2])
  have x: "val_path ''/x'' = ''/x''" by code_simp
  from b x have c: "val_path ''/data/latest/x'' = ''/data/lavalidation/x''" by simp
  have d: "val_path ''/corpus/test/spk'' = ''/corpus/validation/spk''" by code_simp
  show ?thesis by (intro conjI h1 a h2 b c d)
qed

subsection \<open>Paths\<close>

lemma split_on_not_Nil [simp]: "split_on c s \<noteq> []"
  by (induction s) (auto split: list.splits)

lemma split_on_append: "split_on c (a @ c # b) = split_on c a @ split_on c b"
  by (induction a) (auto split: list.splits)

lemma split_on_absent: "c \<notin> set s \<Longrightarrow> split_on c s = [s]"
  by (induction s) auto

lemma components_Nil [simp]: "components [] = []"
  by (simp add: components_def)

lemma components_slash: "components (a @ CHR ''/'' # b) = components a @ components b"
  by (simp add: components_def split_on_append)

lemma components_name: "n \<noteq> [] \<Longrightarrow> CHR ''/'' \<notin> set n \<Longrightarrow> components n = [n]"
  by (simp add: components_def split_on_absent)

lemma key_join:
  assumes "\<not> is_abs b"
  shows "key (os_path_join a b) = (is_abs a, components a @ components b)"
proof (cases "a = []")
  case True
  with assms show ?thesis by (auto simp: os_path_join_def key_def is_abs_def)
next
  case False
  show ?thesis
  proof (cases "last a = CHR ''/''")
    case True
    with False obtain a' where a: "a = a' @ [CHR ''/'']"
      by (metis append_butlast_last_id)
    have "components a = components a'" using components_slash [of a' "[]"] by (simp add: a)
    moreover have "components (a @ b) = components a' @ components b"
      using components_slash [of a' b] by (simp add: a)
    moreover have "is_abs (a @ b) = is_abs a" using False by (simp add: is_abs_def)
    ultimately show ?thesis using assms False True
      by (auto simp: os_path_join_def key_def is_abs_def)
  next
    case l: False
    have "is_abs (a @ CHR ''/'' # b) = is_abs a" using False by (simp add: is_abs_def)
    with assms False l show ?thesis
      by (auto simp: os_path_join_def key_def is_abs_def components_slash)
  qed
qed

lemma key_join_name:
  "n \<noteq> [] \<Longrightarrow> CHR ''/'' \<notin> set n \<Longrightarrow> key (os_path_join d n) = child (key d) n"
  using key_join [of n d]
  by (cases n) (auto simp: is_abs_def child_def key_def components_name)

lemma join_not_Nil: "n \<noteq> [] \<Longrightarrow> os_path_join d n \<noteq> []"
  by (auto simp: os_path_join_def)

lemma suffix_join: "\<not> is_abs x \<Longrightarrow> suffix x (os_path_join d x)"
  by (auto simp: os_path_join_def is_abs_def suffix_def)

lemma basename_no_slash: "CHR ''/'' \<notin> set (os_path_basename p)"
proof -
  have "\<forall>c \<in> set (takeWhile (\<lambda>c. c \<noteq> CHR ''/'') (rev p)). c \<noteq> CHR ''/''"
    by (metis set_takeWhileD)
  then show ?thesis by (auto simp: os_path_basename_def)
qed

lemma splitext_no_slash: "CHR ''/'' \<notin> set p \<Longrightarrow> CHR ''/'' \<notin> set (fst (os_path_splitext p))"
  by (auto simp: os_path_splitext_def Let_def dest: in_set_takeD)

lemma sample_dir_name_plain:
  "sample_dir_name v n \<noteq> [] \<and> CHR ''/'' \<notin> set (sample_dir_name v n)"
  using splitext_no_slash [OF basename_no_slash, of v] splitext_no_slash [OF basename_no_slash, of n]
  by (simp add: sample_dir_name_def Let_def)

lemma key_sample_dir:
  "key (sample_dir storage speaker_id v n) =
     child (key (os_path_join (base_dir storage) speaker_id)) (sample_dir_name v n)"
  unfolding sample_dir_def using sample_dir_name_plain [of v n] by (intro key_join_name) auto

subsection \<open>File system\<close>

lemma parent_child: "parent fs (child k n) = (if snd k = [] then Some Dir else fs k)"
  by (simp add: parent_def child_def)

lemma child_neq [simp]: "child k n \<noteq> k" "k \<noteq> child k n"
  by (cases k; simp add: child_def)+

lemma child_inj [simp]: "child k n = child k' n' \<longleftrightarrow> k = k' \<and> n = n'"
  by (cases k; cases k'; auto simp: child_def)

lemma snd_child: "snd (child k x) \<noteq> []"
  by (simp add: child_def)

lemma wf_fs_absent_child:
  "wf_fs fs \<Longrightarrow> fs k \<noteq> Some Dir \<Longrightarrow> snd k \<noteq> [] \<Longrightarrow> fs (child k n) = None"
proof (rule ccontr)
  assume wf: "wf_fs fs" and k: "fs k \<noteq> Some Dir" "snd k \<noteq> []" and c: "fs (child k n) \<noteq> None"
  from wf c have "parent fs (child k n) = Some Dir" by (auto simp: wf_fs_def)
  with k show False by (simp add: parent_child)
qed

lemma wf_fs_mkdir:
  assumes wf: "wf_fs fs" and k: "fs k = None" "snd k \<noteq> []" "parent fs k = Some Dir"
  shows "wf_fs (fs(k \<mapsto> Dir))"
  unfolding wf_fs_def
proof (intro conjI ballI)
  show "finite (dom (fs(k \<mapsto> Dir)))" using wf by (simp add: wf_fs_def)
next
  fix j assume j: "j \<in> dom (fs(k \<mapsto> Dir))"
  show "snd j \<noteq> []" using j wf k by (auto simp: wf_fs_def)
  have pj: "parent fs j = Some Dir" using j wf k by (auto simp: wf_fs_def)
  then show "parent (fs(k \<mapsto> Dir)) j = Some Dir"
    by (auto simp: parent_def)
qed

lemma wf_fs_write:
  assumes wf: "wf_fs fs" and k: "fs k \<noteq> Some Dir" "snd k \<noteq> []" "parent fs k = Some Dir"
  shows "wf_fs (fs(k \<mapsto> File b))"
  unfolding wf_fs_def
proof (intro conjI ballI)
  show "finite (dom (fs(k \<mapsto> File b)))" using wf by (simp add: wf_fs_def)
next
  fix j assume j: "j \<in> dom (fs(k \<mapsto> File b))"
  show "snd j \<noteq> []" using j wf k by (auto simp: wf_fs_def)
  have pj: "parent fs j = Some Dir" using j wf k by (auto simp: wf_fs_def)
  with k(1,2) show "parent (fs(k \<mapsto> File b)) j = Some Dir"
    by (auto simp: parent_def split: if_splits)
qed

lemma os_mkdir_cases:
  assumes "os_mkdir p fs = (r, fs')"
  shows "(\<exists>e. r = Inl e \<and> fs' = fs) \<or>
         (r = Inr () \<and> fs (key p) = None \<and> snd (key p) \<noteq> [] \<and>
          parent fs (key p) = Some Dir \<and> fs' = fs(key p \<mapsto> Dir))"
  using assms
  by (auto simp: os_mkdir_def stat_def key_def split: if_splits option.splits node.splits)



lemma write_file_child:
  assumes x: "x \<noteq> []" "CHR ''/'' \<notin> set x"
    and d: "snd (key d) = [] \<or> fs (key d) = Some Dir"
    and c: "fs (child (key d) x) \<noteq> Some Dir"
  shows "write_file (os_path_join d x) b fs = (Inr (), fs(child (key d) x \<mapsto> File b))"
proof -
  let ?p = "os_path_join d x"
  have kp: "key ?p = child (key d) x" by (rule key_join_name [OF x])
  then have cp: "components ?p = snd (key d) @ [x]" by (simp add: key_def child_def)
  have ne: "?p \<noteq> []" by (rule join_not_Nil [OF x(1)])
  have st: "stat fs ?p = fs (child (key d) x)" using cp ne kp by (simp add: stat_def)
  have pa: "parent fs (key ?p) = Some Dir" unfolding kp parent_child using d by auto
  show ?thesis unfolding write_file_def st pa using ne c by (simp add: kp)
qed

lemma stat_join_name:
  "x \<noteq> [] \<Longrightarrow> CHR ''/'' \<notin> set x \<Longrightarrow> stat fs (os_path_join d x) = fs (child (key d) x)"
  using key_join_name [of x d] join_not_Nil [of x d]
  by (auto simp: stat_def key_def child_def)

lemma read_file_written:
  assumes "x \<noteq> []" "CHR ''/'' \<notin> set x"
  shows "read_file fs (os_path_join d x) =
     (case fs (child (key d) x) of None \<Rightarrow> Inl FileNotFoundError
      | Some Dir \<Rightarrow> Inl IsADirectoryError | Some (File b) \<Rightarrow> Inr b)"
  by (simp add: read_file_def stat_join_name [OF assms])

lemma stat_sample_dir:
  "stat fs (sample_dir storage speaker_id v n) = fs (key (sample_dir storage speaker_id v n))"
proof -
  have "sample_dir storage speaker_id v n \<noteq> []"
    unfolding sample_dir_def using sample_dir_name_plain [of v n] by (intro join_not_Nil) simp
  moreover have "components (sample_dir storage speaker_id v n) \<noteq> []"
    using key_sample_dir [of storage speaker_id v n] by (simp add: key_def child_def)
  ultimately show ?thesis by (simp add: stat_def)
qed

lemma stat_shorter:
  assumes "\<forall>j. g j \<noteq> fs j \<longrightarrow> length (snd j) > length (snd (key p))"
  shows "stat g p = stat fs p"
  using assms by (auto simp: stat_def key_def)

lemma prediction_files_not_Nil: "prediction_files \<noteq> []"
  by (simp add: prediction_files_def)

lemma prediction_dirs_mkdir:
  assumes wf: "wf_fs fs" and k: "fs k = None" "snd k \<noteq> []"
  shows "prediction_dirs (fs(k \<mapsto> Dir)) = prediction_dirs fs"
proof (intro set_eqI iffI)
  fix j assume j: "j \<in> prediction_dirs (fs(k \<mapsto> Dir))"
  have ch: "fs (child k n) = None" for n
    using wf_fs_absent_child [OF wf _ k(2)] k(1) by simp
  have "j \<noteq> k"
  proof
    assume "j = k"
    with j have "\<forall>name \<in> set prediction_files. \<exists>b. fs (child k name) = Some (File b)"
      by (simp add: prediction_dirs_def)
    with ch prediction_files_not_Nil show False by (cases prediction_files) auto
  qed
  moreover from j have "\<forall>name \<in> set prediction_files. child j name \<noteq> k"
    by (auto simp: prediction_dirs_def)
  ultimately show "j \<in> prediction_dirs fs"
    using j by (auto simp: prediction_dirs_def)
next
  fix j assume j: "j \<in> prediction_dirs fs"
  with k(1) have "j \<noteq> k" "\<forall>name \<in> set prediction_files. child j name \<noteq> k"
    by (auto simp: prediction_dirs_def)
  with j show "j \<in> prediction_dirs (fs(k \<mapsto> Dir))"
    by (auto simp: prediction_dirs_def)
qed

lemma os_mkdir_wf:
  "wf_fs fs \<Longrightarrow> os_mkdir p fs = (r, fs') \<Longrightarrow>
     wf_fs fs' \<and> prediction_dirs fs' = prediction_dirs fs"
  using os_mkdir_cases [of p fs r fs']
  by (auto simp: wf_fs_mkdir prediction_dirs_mkdir)



subsection \<open>Prediction Storage\<close>

lemma plain_names:
  "''source.wav'' \<noteq> [] \<and> CHR ''/'' \<notin> set ''source.wav''"
  "''mixture.wav'' \<noteq> [] \<and> CHR ''/'' \<notin> set ''mixture.wav''"
  "''enhanced.wav'' \<noteq> [] \<and> CHR ''/'' \<notin> set ''enhanced.wav''"
  "''nn.wav'' \<noteq> [] \<and> CHR ''/'' \<notin> set ''nn.wav''"
  "''mixture.npy'' \<noteq> [] \<and> CHR ''/'' \<notin> set ''mixture.npy''"
  "''enhanced.npy'' \<noteq> [] \<and> CHR ''/'' \<notin> set ''enhanced.npy''"
  "''nn.npy'' \<noteq> [] \<and> CHR ''/'' \<notin> set ''nn.npy''"
  by simp_all

lemma save_wav_child:
  assumes "x \<noteq> [] \<and> CHR ''/'' \<notin> set x"
    and "snd (key d) = [] \<or> fs (key d) = Some Dir"
    and "fs (child (key d) x) \<noteq> Some Dir"
  shows "save_to_wav_file c sig (os_path_join d x) fs =
           (Inr (), fs(child (key d) x \<mapsto> File (wav_bytes c sig)))"
  unfolding save_to_wav_file_def using assms by (intro write_file_child) auto

lemma np_save_child:
  assumes "x \<noteq> [] \<and> CHR ''/'' \<notin> set x" and "suffix ''.npy'' x"
    and "snd (key d) = [] \<or> fs (key d) = Some Dir"
    and "fs (child (key d) x) \<noteq> Some Dir"
  shows "np_save c (os_path_join d x) arr fs =
           (Inr (), fs(child (key d) x \<mapsto> File (npy_bytes c arr)))"
proof -
  have "\<not> is_abs x" using assms(1) by (cases x) (auto simp: is_abs_def)
  from suffix_join [OF this, of d] assms(2) have "suffix ''.npy'' (os_path_join d x)"
    using suffix_order.trans by blast
  then show ?thesis
    unfolding np_save_def using assms by (simp add: write_file_child)
qed

lemma sample_steps:
  assumes wf: "wf_fs fs" and dk: "fs (key d) = Some Dir" "snd (key d) \<noteq> []"
    and fresh: "\<forall>x. fs (child (key d) x) = None"
  shows "run_steps
     [copy2 speech (os_path_join d ''source.wav''),
      save_to_wav_file c mixed_signal (os_path_join d ''mixture.wav''),
      save_to_wav_file c predicted (os_path_join d ''enhanced.wav''),
      save_to_wav_file c nn (os_path_join d ''nn.wav''),
      np_save c (os_path_join d ''mixture.npy'') mixed_spec,
      np_save c (os_path_join d ''enhanced.npy'') enhanced_spec,
      np_save c (os_path_join d ''nn.npy'') nn_spec] fs =
    (case read_file fs speech of
       Inl e \<Rightarrow> (Inl e, fs)
     | Inr src \<Rightarrow> (Inr (), written c (key d) src mixed_signal predicted nn enhanced_spec nn_spec mixed_spec fs))"
proof -
  let ?dst = "os_path_join d ''source.wav''"
  have kd: "key ?dst = child (key d) ''source.wav''" by (rule key_join_name) simp_all
  have "?dst \<noteq> []" by (rule join_not_Nil) simp
  moreover have "components ?dst \<noteq> []" using kd by (simp add: key_def child_def)
  ultimately have st: "stat fs ?dst = None" using fresh kd by (simp add: stat_def)
  have cp: "copy2 speech ?dst fs =
      (case read_file fs speech of Inl e \<Rightarrow> (Inl e, fs)
       | Inr src \<Rightarrow> (Inr (), fs(child (key d) ''source.wav'' \<mapsto> File src)))"
    using dk fresh
    by (simp add: copy2_def Let_def st write_file_child split: sum.splits)
  show ?thesis
  proof (cases "read_file fs speech")
    case (Inl e)
    then show ?thesis by (simp add: cp)
  next
    case (Inr src)
    then show ?thesis
      using dk fresh
      by (simp add: cp written_def save_wav_child np_save_child suffix_def)
  qed
qed


lemma wf_fs_written:
  assumes wf: "wf_fs fs" and dk: "fs dk = Some Dir" "snd dk \<noteq> []"
    and fresh: "\<forall>x. fs (child dk x) = None"
  shows "wf_fs (written c dk src m p n es ns ms fs)"
proof -
  have step: "\<And>g x b. wf_fs g \<Longrightarrow> g dk = Some Dir \<Longrightarrow> g (child dk x) \<noteq> Some Dir \<Longrightarrow>
      wf_fs (g(child dk x \<mapsto> File b)) \<and> (g(child dk x \<mapsto> File b)) dk = Some Dir"
    using dk(2) by (simp add: wf_fs_write parent_child snd_child)
  have keep: "\<And>g x y b. g (child dk y) \<noteq> Some Dir \<Longrightarrow> (g(child dk x \<mapsto> File b)) (child dk y) \<noteq> Some Dir"
    by simp
  from fresh have f0: "\<And>y. fs (child dk y) \<noteq> Some Dir" by simp
  show ?thesis
    unfolding written_def
    by (intro step [THEN conjunct1] step [THEN conjunct2] keep f0 wf dk(1))
qed

lemma listdir_written:
  assumes "\<forall>x. fs (child dk x) = None"
  shows "{name. written c dk src m p n es ns ms fs (child dk name) \<noteq> None} = set prediction_files"
  using assms by (auto simp: written_def prediction_files_def split: if_splits)

lemma written_changes:
  "written c dk src m p n es ns ms fs j \<noteq> fs j \<Longrightarrow> length (snd j) = Suc (length (snd dk))"
  by (auto simp: written_def child_def split: if_splits)

lemma create_speaker_dir_cases:
  assumes wf: "wf_fs fs" and c: "create_speaker_dir storage speaker_id fs = (r, fs1)"
  shows "wf_fs fs1 \<and> prediction_dirs fs1 = prediction_dirs fs
       \<and> (\<forall>k. fs1 k \<noteq> fs k \<longrightarrow> fs k = None \<and> fs1 k = Some Dir)
       \<and> ((\<exists>e. r = Inl e) \<or>
           (r = Inr (os_path_join (base_dir storage) speaker_id)
            \<and> stat fs1 (os_path_join (base_dir storage) speaker_id) \<noteq> None))"
proof (cases "os_path_exists fs (os_path_join (base_dir storage) speaker_id)")
  case True
  with c wf show ?thesis by (auto simp: create_speaker_dir_def os_path_exists_def)
next
  case False
  let ?sd = "os_path_join (base_dir storage) speaker_id"
  obtain r' where m: "os_mkdir ?sd fs = (r', fs1)"
    using c False by (auto simp: create_speaker_dir_def Let_def split: prod.splits sum.splits)
  from os_mkdir_wf [OF wf m] have w: "wf_fs fs1" "prediction_dirs fs1 = prediction_dirs fs" by auto
  from os_mkdir_cases [OF m] have mono: "\<forall>k. fs1 k \<noteq> fs k \<longrightarrow> fs k = None \<and> fs1 k = Some Dir"
    by (auto split: if_splits)
  have "(\<exists>e. r = Inl e) \<or> (r = Inr ?sd \<and> stat fs1 ?sd \<noteq> None)"
  proof (cases r')
    case (Inl e)
    with c False m show ?thesis by (auto simp: create_speaker_dir_def Let_def)
  next
    case (Inr u)
    with os_mkdir_cases [OF m] have "snd (key ?sd) \<noteq> []" "fs1 (key ?sd) = Some Dir" by auto
    moreover from m Inr have "?sd \<noteq> []" by (auto simp: os_mkdir_def)
    ultimately have "stat fs1 ?sd \<noteq> None" by (simp add: stat_def key_def)
    with c False m Inr show ?thesis by (auto simp: create_speaker_dir_def Let_def)
  qed
  with w mono show ?thesis by blast
qed

lemma save_prediction_unfold:
  "save_prediction c storage speaker_id v n speech ms ps nn es ns mx fs =
     (case create_speaker_dir storage speaker_id fs of
        (Inl e, fs1) \<Rightarrow> (Inl e, fs1)
      | (Inr sd, fs1) \<Rightarrow>
          (case os_mkdir (os_path_join sd (sample_dir_name v n)) fs1 of
             (Inl e, fs2) \<Rightarrow> (Inl e, fs2)
           | (Inr u, fs2) \<Rightarrow>
               run_steps
                 [copy2 speech (os_path_join (os_path_join sd (sample_dir_name v n)) ''source.wav''),
                  save_to_wav_file c ms (os_path_join (os_path_join sd (sample_dir_name v n)) ''mixture.wav''),
                  save_to_wav_file c ps (os_path_join (os_path_join sd (sample_dir_name v n)) ''enhanced.wav''),
                  save_to_wav_file c nn (os_path_join (os_path_join sd (sample_dir_name v n)) ''nn.wav''),
                  np_save c (os_path_join (os_path_join sd (sample_dir_name v n)) ''mixture.npy'') mx,
                  np_save c (os_path_join (os_path_join sd (sample_dir_name v n)) ''enhanced.npy'') es,
                  np_save c (os_path_join (os_path_join sd (sample_dir_name v n)) ''nn.npy'') ns] fs2))"
  by (simp add: save_prediction_def Let_def split: prod.splits sum.splits)

lemma save_prediction_result:
  assumes wf: "wf_fs fs"
    and s: "save_prediction c storage speaker_id v n speech ms ps nn es ns mx fs = (r, fs')"
  shows "wf_fs fs' \<and>
    ((\<exists>e. r = Inl e \<and> prediction_dirs fs' = prediction_dirs fs \<and> (\<forall>k. fs' k \<noteq> fs k \<longrightarrow> fs k = None \<and> fs' k = Some Dir))
     \<or> (\<exists>fs1 src. r = Inr ()
          \<and> wf_fs fs1 \<and> prediction_dirs fs1 = prediction_dirs fs
          \<and> (\<forall>k. fs1 k \<noteq> fs k \<longrightarrow> fs k = None \<and> fs1 k = Some Dir)
          \<and> stat fs1 (os_path_join (base_dir storage) speaker_id) \<noteq> None
          \<and> fs1 (key (sample_dir storage speaker_id v n)) = None
          \<and> stat fs1 (sample_dir storage speaker_id v n) = None
          \<and> parent fs1 (key (sample_dir storage speaker_id v n)) = Some Dir
          \<and> read_file (fs1(key (sample_dir storage speaker_id v n) \<mapsto> Dir)) speech = Inr src
          \<and> fs' = written c (key (sample_dir storage speaker_id v n)) src ms ps nn es ns mx
                    (fs1(key (sample_dir storage speaker_id v n) \<mapsto> Dir))))"
proof -
  let ?sd = "os_path_join (base_dir storage) speaker_id"
  let ?d = "sample_dir storage speaker_id v n"
  obtain r1 fs1 where c1: "create_speaker_dir storage speaker_id fs = (r1, fs1)" by force
  note cs = create_speaker_dir_cases [OF wf c1]
  show ?thesis
  proof (cases r1)
    case (Inl e)
    with s c1 cs show ?thesis by (auto simp: save_prediction_unfold)
  next
    case (Inr sd)
    with cs have sd: "sd = ?sd" and ex: "stat fs1 ?sd \<noteq> None" by auto
    from cs have wf1: "wf_fs fs1" and pd1: "prediction_dirs fs1 = prediction_dirs fs"
      and mono1: "\<forall>k. fs1 k \<noteq> fs k \<longrightarrow> fs k = None \<and> fs1 k = Some Dir" by auto
    obtain r2 fs2 where m: "os_mkdir ?d fs1 = (r2, fs2)" by force
    show ?thesis
    proof (cases r2)
      case (Inl e)
      with os_mkdir_cases [OF m] have "fs2 = fs1" by auto
      with s c1 Inr sd m Inl wf1 pd1 mono1 show ?thesis
        by (auto simp: save_prediction_unfold sample_dir_def)
    next
      case r2: (Inr u)
      with os_mkdir_cases [OF m] have k: "fs1 (key ?d) = None" "snd (key ?d) \<noteq> []"
        "parent fs1 (key ?d) = Some Dir" "fs2 = fs1(key ?d \<mapsto> Dir)" by auto
      from m r2 have st: "stat fs1 ?d = None"
        by (auto simp: os_mkdir_def split: if_splits)
      from os_mkdir_wf [OF wf1 m] have wf2: "wf_fs fs2" and pd2: "prediction_dirs fs2 = prediction_dirs fs1"
        by auto
      have fresh1: "\<forall>x. fs1 (child (key ?d) x) = None"
        using wf_fs_absent_child [OF wf1 _ k(2)] k(1) by simp
      with k(4) have fresh2: "\<forall>x. fs2 (child (key ?d) x) = None" by simp
      have d2: "fs2 (key ?d) = Some Dir" using k(4) by simp
      note steps = sample_steps [OF wf2 d2 k(2) fresh2, of speech c ms ps nn mx es ns]
      have run: "(r, fs') =
         (case read_file fs2 speech of
            Inl e \<Rightarrow> (Inl e, fs2)
          | Inr src \<Rightarrow> (Inr (), written c (key ?d) src ms ps nn es ns mx fs2))"
        using s c1 Inr sd m r2 steps
        by (simp add: save_prediction_unfold sample_dir_def)
      have mono2: "\<forall>k. fs2 k \<noteq> fs k \<longrightarrow> fs k = None \<and> fs2 k = Some Dir"
      proof (intro allI impI)
        fix j assume j: "fs2 j \<noteq> fs j"
        show "fs j = None \<and> fs2 j = Some Dir"
        proof (cases "j = key ?d")
          case True
          with k(1,4) mono1 show ?thesis by (metis fun_upd_same)
        next
          case False
          with k(4) j have "fs1 j \<noteq> fs j" "fs2 j = fs1 j" by auto
          with mono1 show ?thesis by metis
        qed
      qed
      show ?thesis
      proof (cases "read_file fs2 speech")
        case (Inl e)
        with run wf2 pd2 pd1 mono2 show ?thesis by auto
      next
        case (Inr src)
        with run have r: "r = Inr ()" and f: "fs' = written c (key ?d) src ms ps nn es ns mx fs2"
          by auto
        have "wf_fs fs'" unfolding f by (rule wf_fs_written [OF wf2 d2 k(2) fresh2])
        with r f wf1 pd1 mono1 ex k(1) st Inr k(3,4) show ?thesis by blast
      qed
    qed
  qed
qed

lemma save_prediction_again:
  assumes sd: "stat fs (os_path_join (base_dir storage) speaker_id) = Some Dir"
    and d: "stat fs (sample_dir storage speaker_id v n) = Some Dir"
    and nm: "sample_dir_name v' n' = sample_dir_name v n"
  shows "save_prediction c storage speaker_id v' n' speech m p nn es ns ms fs
           = (Inl FileExistsError, fs)"
proof -
  let ?sd = "os_path_join (base_dir storage) speaker_id"
  have cs: "create_speaker_dir storage speaker_id fs = (Inr ?sd, fs)"
    using sd by (simp add: create_speaker_dir_def os_path_exists_def)
  have "sample_dir storage speaker_id v n \<noteq> []" using d by (auto simp: stat_def)
  then have mk: "os_mkdir (sample_dir storage speaker_id v n) fs = (Inl FileExistsError, fs)"
    using d by (simp add: os_mkdir_def)
  show ?thesis
    using cs mk by (simp add: save_prediction_unfold nm sample_dir_def [symmetric])
qed


text \<open>
  Claim C4. When \<open>save_prediction\<close> returns (on a well-formed file system), the sample
  directory is the subdirectory of the speaker directory named by the base name of the
  video file, an underscore and the base name of the noise file, both without extension:
  the source computes its \<open>speech_name\<close> from the video file path, and the speech file
  path has no part in the name. The name is made of the base name of the speech file only
  when the speech file and the video file share it. The directory did not exist before and
  is a directory now; it holds exactly the seven files; \<open>source.wav\<close> has the bytes of the
  clean-speech source file, the other files the encoded signals and spectrograms; and a
  further call for the same speaker with a video path and a noise path of the same two base
  names raises \<open>FileExistsError\<close> and changes nothing, whatever its speech path and its
  other arguments.
\<close>

theorem save_prediction_creates_sample_dir:
  assumes "wf_fs fs"
    and "save_prediction c storage speaker_id video_file_path noise_file_path speech_file_path
           mixed_signal predicted nn_speech enhanced_spec nn_spec mixed_spec fs = (Inr (), fs')"
  shows "sample_dir storage speaker_id video_file_path noise_file_path =
           os_path_join (os_path_join (base_dir storage) speaker_id)
             (fst (os_path_splitext (os_path_basename video_file_path)) @ ''_'' @
              fst (os_path_splitext (os_path_basename noise_file_path)))
       \<and> (fst (os_path_splitext (os_path_basename speech_file_path)) =
            fst (os_path_splitext (os_path_basename video_file_path)) \<longrightarrow>
          sample_dir storage speaker_id video_file_path noise_file_path =
            os_path_join (os_path_join (base_dir storage) speaker_id)
              (fst (os_path_splitext (os_path_basename speech_file_path)) @ ''_'' @
               fst (os_path_splitext (os_path_basename noise_file_path))))
       \<and> stat fs (sample_dir storage speaker_id video_file_path noise_file_path) = None
       \<and> stat fs' (sample_dir storage speaker_id video_file_path noise_file_path) = Some Dir
       \<and> stat fs' (os_path_join (base_dir storage) speaker_id) = Some Dir
       \<and> key (sample_dir storage speaker_id video_file_path noise_file_path) =
           child (key (os_path_join (base_dir storage) speaker_id))
             (sample_dir_name video_file_path noise_file_path)
       \<and> listdir fs' (sample_dir storage speaker_id video_file_path noise_file_path) =
           {''mixture.wav'', ''enhanced.wav'', ''nn.wav'', ''source.wav'',
            ''mixture.npy'', ''enhanced.npy'', ''nn.npy''}
       \<and> (\<exists>src. read_file fs speech_file_path = Inr src
            \<and> read_file fs' (os_path_join (sample_dir storage speaker_id video_file_path noise_file_path)
                 ''source.wav'') = Inr src)
       \<and> read_file fs' (os_path_join (sample_dir storage speaker_id video_file_path noise_file_path)
            ''mixture.wav'') = Inr (wav_bytes c mixed_signal)
       \<and> read_file fs' (os_path_join (sample_dir storage speaker_id video_file_path noise_file_path)
            ''enhanced.wav'') = Inr (wav_bytes c predicted)
       \<and> read_file fs' (os_path_join (sample_dir storage speaker_id video_file_path noise_file_path)
            ''nn.wav'') = Inr (wav_bytes c nn_speech)
       \<and> read_file fs' (os_path_join (sample_dir storage speaker_id video_file_path noise_file_path)
            ''mixture.npy'') = Inr (npy_bytes c mixed_spec)
       \<and> read_file fs' (os_path_join (sample_dir storage speaker_id video_file_path noise_file_path)
            ''enhanced.npy'') = Inr (npy_bytes c enhanced_spec)
       \<and> read_file fs' (os_path_join (sample_dir storage speaker_id video_file_path noise_file_path)
            ''nn.npy'') = Inr (npy_bytes c nn_spec)
       \<and> (\<forall>c' video' noise' speech' m' p' n' es' ns' ms'.
            fst (os_path_splitext (os_path_basename video')) =
              fst (os_path_splitext (os_path_basename video_file_path))
          \<and> fst (os_path_splitext (os_path_basename noise')) =
              fst (os_path_splitext (os_path_basename noise_file_path))
          \<longrightarrow> save_prediction c' storage speaker_id video' noise' speech' m' p' n' es' ns' ms' fs'
                = (Inl FileExistsError, fs'))"
proof -
  let ?sd = "os_path_join (base_dir storage) speaker_id"
  let ?d = "sample_dir storage speaker_id video_file_path noise_file_path"
  let ?dk = "key ?d"
  from save_prediction_result [OF assms] obtain fs1 src where
    wf1: "wf_fs fs1" and mono: "\<forall>k. fs1 k \<noteq> fs k \<longrightarrow> fs k = None \<and> fs1 k = Some Dir"
    and sd: "stat fs1 ?sd \<noteq> None" and k1: "fs1 ?dk = None"
    and par: "parent fs1 ?dk = Some Dir"
    and rd: "read_file (fs1(?dk \<mapsto> Dir)) speech_file_path = Inr src"
    and fs': "fs' = written c ?dk src mixed_signal predicted nn_speech enhanced_spec nn_spec mixed_spec
                (fs1(?dk \<mapsto> Dir))"
    by auto
  let ?fs2 = "fs1(?dk \<mapsto> Dir)"
  have kd: "?dk = child (key ?sd) (sample_dir_name video_file_path noise_file_path)"
    by (rule key_sample_dir)
  have sdk: "snd ?dk \<noteq> []" unfolding kd by (rule snd_child)
  have fresh1: "\<forall>x. fs1 (child ?dk x) = None"
    using wf_fs_absent_child [OF wf1 _ sdk] k1 by simp
  then have fresh2: "\<forall>x. ?fs2 (child ?dk x) = None" by simp
  have dk': "fs' ?dk = Some Dir" by (simp add: fs' written_def)
  have name: "?d = os_path_join ?sd
             (fst (os_path_splitext (os_path_basename video_file_path)) @ ''_'' @
              fst (os_path_splitext (os_path_basename noise_file_path)))"
    by (simp add: sample_dir_def sample_dir_name_def Let_def)
  have name2: "fst (os_path_splitext (os_path_basename speech_file_path)) =
            fst (os_path_splitext (os_path_basename video_file_path)) \<longrightarrow>
          ?d = os_path_join ?sd
              (fst (os_path_splitext (os_path_basename speech_file_path)) @ ''_'' @
               fst (os_path_splitext (os_path_basename noise_file_path)))"
    by (simp add: sample_dir_def sample_dir_name_def Let_def)
  have "fs ?dk = None" using mono k1 by metis
  then have st0: "stat fs ?d = None" by (simp add: stat_sample_dir)
  have st1: "stat fs' ?d = Some Dir" using dk' by (simp add: stat_sample_dir)
  have sd_ne: "?sd \<noteq> []" using sd by (auto simp: stat_def)
  have "stat fs1 ?sd = Some Dir"
    using par sd_ne unfolding kd parent_child by (auto simp: stat_def key_def)
  moreover have "stat fs' ?sd = stat fs1 ?sd"
  proof (rule stat_shorter, intro allI impI)
    fix j assume j: "fs' j \<noteq> fs1 j"
    show "length (snd (key ?sd)) < length (snd j)"
    proof (cases "j = ?dk")
      case True then show ?thesis by (simp add: kd child_def)
    next
      case False
      with j have "fs' j \<noteq> ?fs2 j" by simp
      from written_changes [OF this [unfolded fs']] show ?thesis by (simp add: kd child_def)
    qed
  qed
  ultimately have st_sd: "stat fs' ?sd = Some Dir" by simp
  have ls: "listdir fs' ?d = {''mixture.wav'', ''enhanced.wav'', ''nn.wav'', ''source.wav'',
            ''mixture.npy'', ''enhanced.npy'', ''nn.npy''}"
    unfolding listdir_def fs' listdir_written [OF fresh2] by (auto simp: prediction_files_def)
  have src0: "read_file fs speech_file_path = Inr src"
  proof -
    from rd have a: "speech_file_path \<noteq> []" "components speech_file_path \<noteq> []"
      "?fs2 (key speech_file_path) = Some (File src)"
      by (auto simp: read_file_def stat_def split: if_splits option.splits node.splits)
    then have b: "fs1 (key speech_file_path) = Some (File src)" by (auto split: if_splits)
    with mono have "fs (key speech_file_path) = Some (File src)"
      by (metis node.distinct(1) option.inject)
    with a show ?thesis by (simp add: read_file_def stat_def)
  qed
  have files:
    "read_file fs' (os_path_join ?d ''source.wav'') = Inr src"
    "read_file fs' (os_path_join ?d ''mixture.wav'') = Inr (wav_bytes c mixed_signal)"
    "read_file fs' (os_path_join ?d ''enhanced.wav'') = Inr (wav_bytes c predicted)"
    "read_file fs' (os_path_join ?d ''nn.wav'') = Inr (wav_bytes c nn_speech)"
    "read_file fs' (os_path_join ?d ''mixture.npy'') = Inr (npy_bytes c mixed_spec)"
    "read_file fs' (os_path_join ?d ''enhanced.npy'') = Inr (npy_bytes c enhanced_spec)"
    "read_file fs' (os_path_join ?d ''nn.npy'') = Inr (npy_bytes c nn_spec)"
    by (simp_all add: read_file_written fs' written_def)
  show ?thesis
    apply (intro conjI)
                  apply (rule name)
                 apply (rule name2)
                apply (rule st0)
               apply (rule st1)
              apply (rule st_sd)
             apply (rule kd)
            apply (rule ls)
           apply (rule exI [of _ src])
           apply (simp add: src0 files)
          apply (rule files)+
    apply (intro allI impI)
    apply (rule save_prediction_again [OF st_sd st1])
    apply (simp add: sample_dir_name_def)
    done
qed

lemma wf_example_files: "wf_fs example_files"
  unfolding wf_fs_def
  by (simp add: example_files_def dom_map_of_conv_image_fst parent_def)

lemma example_save_ok: "fst example_save = Inr ()"
  by code_simp

lemma example_sample_dir:
  "sample_dir example_storage ''spk1'' ''data/test/spk1/v1.mp4'' ''noise/n1.wav'' = ''out/run/spk1/v1_n1''"
  by code_simp

text \<open>
  Speaker \<open>spk1\<close>, video \<open>v1.mp4\<close> and noise \<open>n1.wav\<close>: the directory
  \<open>out/run/spk1/v1_n1\<close> is created with the seven files, and a second call with the same
  names is refused.
\<close>

theorem save_prediction_creates_sample_dir_witness:
  "wf_fs example_files
   \<and> example_save = (Inr (), snd example_save)
   \<and> stat example_files ''out/run/spk1/v1_n1'' = None
   \<and> stat (snd example_save) ''out/run/spk1/v1_n1'' = Some Dir
   \<and> listdir (snd example_save) ''out/run/spk1/v1_n1'' =
        {''mixture.wav'', ''enhanced.wav'', ''nn.wav'', ''source.wav'',
         ''mixture.npy'', ''enhanced.npy'', ''nn.npy''}
   \<and> read_file example_files ''data/test/spk1/v1.wav'' = Inr [11]
   \<and> read_file (snd example_save) ''out/run/spk1/v1_n1/source.wav'' = Inr [11]
   \<and> read_file (snd example_save) ''out/run/spk1/v1_n1/nn.npy'' = Inr [5]
   \<and> save_prediction example_collab example_storage ''spk1''
        ''elsewhere/v1.avi'' ''n1.mp3'' ''data/test/spk1/v2.wav''
        [] [] [] \<lparr>trailing = [], rows = []\<rparr> \<lparr>trailing = [], rows = []\<rparr>
        \<lparr>trailing = [], rows = []\<rparr> (snd example_save) = (Inl FileExistsError, snd example_save)"
proof -
  let ?d = "''out/run/spk1/v1_n1''"
  have run: "save_prediction example_collab example_storage ''spk1''
       ''data/test/spk1/v1.mp4'' ''noise/n1.wav'' ''data/test/spk1/v1.wav''
       [1] [2] [3] \<lparr>trailing = [], rows = [4]\<rparr> \<lparr>trailing = [], rows = [5]\<rparr>
       \<lparr>trailing = [], rows = [6]\<rparr> example_files = (Inr (), snd example_save)"
    using example_save_ok unfolding example_save_def [symmetric] by (metis prod.collapse)
  note t = save_prediction_creates_sample_dir [OF wf_example_files run, unfolded example_sample_dir]
  have src: "read_file example_files ''data/test/spk1/v1.wav'' = Inr [11]" by code_simp
  have j1: "os_path_join ?d ''source.wav'' = ''out/run/spk1/v1_n1/source.wav''" by code_simp
  have j2: "os_path_join ?d ''nn.npy'' = ''out/run/spk1/v1_n1/nn.npy''" by code_simp
  have npy: "npy_bytes example_collab \<lparr>trailing = [], rows = [5]\<rparr> = [5]"
    by (simp add: example_collab_def)
  have same: "fst (os_path_splitext (os_path_basename ''elsewhere/v1.avi'')) =
              fst (os_path_splitext (os_path_basename ''data/test/spk1/v1.mp4''))
          \<and> fst (os_path_splitext (os_path_basename ''n1.mp3'')) =
              fst (os_path_splitext (os_path_basename ''noise/n1.wav''))"
    by code_simp
  note c2 = t [THEN conjunct2, THEN conjunct2]
  note c3 = c2 [THEN conjunct2]
  note c6 = c3 [THEN conjunct2, THEN conjunct2, THEN conjunct2]
  note c7 = c6 [THEN conjunct2]
  note c13 = c7 [THEN conjunct2, THEN conjunct2, THEN conjunct2, THEN conjunct2, THEN conjunct2,
    THEN conjunct2]
  note a1 = c2 [THEN conjunct1] and a2 = c3 [THEN conjunct1] and a3 = c6 [THEN conjunct1]
  from c7 [THEN conjunct1] obtain src' where
    s: "read_file example_files ''data/test/spk1/v1.wav'' = Inr src'"
       "read_file (snd example_save) (os_path_join ?d ''source.wav'') = Inr src'"
    by (elim exE conjE)
  from s(1) src have "src' = [11]" by simp
  with s(2) have b: "read_file (snd example_save) ''out/run/spk1/v1_n1/source.wav'' = Inr [11]"
    unfolding j1 by simp
  have c: "read_file (snd example_save) ''out/run/spk1/v1_n1/nn.npy'' = Inr [5]"
    using c13 [THEN conjunct1] unfolding j2 npy .
  have d: "save_prediction example_collab example_storage ''spk1''
        ''elsewhere/v1.avi'' ''n1.mp3'' ''data/test/spk1/v2.wav''
        [] [] [] \<lparr>trailing = [], rows = []\<rparr> \<lparr>trailing = [], rows = []\<rparr>
        \<lparr>trailing = [], rows = []\<rparr> (snd example_save) = (Inl FileExistsError, snd example_save)"
    by (rule c13 [THEN conjunct2, rule_format, OF same])
  show ?thesis
    unfolding example_save_def [symmetric]
    by (intro conjI wf_example_files run [unfolded example_save_def [symmetric]] a1 a2 a3 src b c d)
qed

text \<open>
  The directory is not named by the speech file. With video \<open>v1.mp4\<close>, speech
  \<open>v2.wav\<close> and noise \<open>n1.wav\<close> the call returns, \<open>out/run/spk1/v2_n1\<close> does not
  exist afterwards and \<open>out/run/spk1/v1_n1\<close> holds the copy of \<open>v2.wav\<close>. A second
  call for the same speaker, the same speech file and the same noise file, with video
  \<open>v3.mp4\<close>, is not refused: it returns and creates \<open>out/run/spk1/v3_n1\<close>.
\<close>

theorem save_prediction_video_name_counterexample:
  "fst (os_path_splitext (os_path_basename ''data/test/spk1/v2.wav'')) = ''v2''
   \<and> fst (os_path_splitext (os_path_basename ''noise/n1.wav'')) = ''n1''
   \<and> fst example_other_save = Inr ()
   \<and> stat (snd example_other_save) ''out/run/spk1/v2_n1'' = None
   \<and> stat (snd example_other_save) ''out/run/spk1/v1_n1'' = Some Dir
   \<and> read_file example_files ''data/test/spk1/v2.wav'' = Inr [12]
   \<and> read_file (snd example_other_save) ''out/run/spk1/v1_n1/source.wav'' = Inr [12]
   \<and> fst example_other_again = Inr ()
   \<and> stat (snd example_other_again) ''out/run/spk1/v2_n1'' = None
   \<and> stat (snd example_other_again) ''out/run/spk1/v3_n1'' = Some Dir"
  by code_simp

subsection \<open>Prediction loop\<close>







subsection \<open>The listings of a speaker\<close>









subsection \<open>The normalizer in training and prediction\<close>












end
